theory Spec2Isabelle
  imports Main "HOL-Library.Word" "HOL-Library.AList"
begin

section \<open>The neural memory manager of VectorOS (kernel/neural\_memory\_manager)\<close>

text \<open>
  A shallow embedding of \<^verbatim>\<open>MemoryPool\<close>, \<^verbatim>\<open>NeuralMemoryManager\<close> and
  \<^verbatim>\<open>NeuralUniquePtr\<close> as one thread executes them. Pointers, \<^verbatim>\<open>size_t\<close> and the
  \<^verbatim>\<open>uint64_t\<close> counters are 64-bit words (an LP64 target), so every addition and
  subtraction wraps as the C++ does. The null pointer is the word 0.
\<close>

type_synonym addr = "64 word"
type_synonym size_t = "64 word"
type_synonym byte = "8 word"

text \<open>
  Two ways in which a call does not return a value: \<^verbatim>\<open>std::bad_alloc\<close> thrown by
  \<^verbatim>\<open>expand_pool\<close>, and a \<^verbatim>\<open>std::lock_guard\<close> on a \<^verbatim>\<open>std::mutex\<close> that the calling
  thread already owns (the mutex is not recursive: the thread waits for itself and the call
  never returns).
\<close>

datatype fault = BadAlloc | SelfDeadlock

subsection \<open>Memory outside the objects\<close>

text \<open>
  \<^verbatim>\<open>sys_results\<close> lists what the system allocator (\<^verbatim>\<open>std::malloc\<close>,
  \<^verbatim>\<open>std::realloc\<close>) returns on its next calls, 0 being a failed call; an exhausted list
  is an exhausted allocator. \<^verbatim>\<open>sys_blocks\<close> gives the size of every block that the
  system allocator has handed out and not taken back. \<^verbatim>\<open>next_field\<close> holds the
  \<^verbatim>\<open>next\<close> member of the \<^verbatim>\<open>PoolBlock\<close> header at each address, \<^verbatim>\<open>bytes\<close> the
  payload bytes.
\<close>

record heap =
  sys_results :: "addr list"
  sys_blocks :: "addr \<Rightarrow> size_t option"
  next_field :: "addr \<Rightarrow> addr"
  bytes :: "addr \<Rightarrow> byte"

text \<open>
  \<^verbatim>\<open>std::memcpy(dst, src, n)\<close>: the \<^verbatim>\<open>n\<close> bytes at \<^verbatim>\<open>dst\<close> become those at
  \<^verbatim>\<open>src\<close>. An address \<^verbatim>\<open>a\<close> lies in the destination exactly when
  \<^verbatim>\<open>a - dst < n\<close> as unsigned words.
\<close>

definition memcpy :: "heap \<Rightarrow> addr \<Rightarrow> addr \<Rightarrow> size_t \<Rightarrow> heap" where
  "memcpy h dst src n =
     h\<lparr>bytes := (\<lambda>a. if a - dst < n then bytes h (src + (a - dst)) else bytes h a)\<rparr>"

text \<open>\<^verbatim>\<open>std::malloc(n)\<close>: a block that is returned is a block of \<^verbatim>\<open>n\<close> bytes from then on.\<close>

definition sys_malloc :: "heap \<Rightarrow> size_t \<Rightarrow> addr \<times> heap" where
  "sys_malloc h n =
     (case sys_results h of
        [] \<Rightarrow> (0, h)
      | a # rest \<Rightarrow>
          (a, if a = 0 then h\<lparr>sys_results := rest\<rparr>
              else h\<lparr>sys_results := rest, sys_blocks := (sys_blocks h)(a \<mapsto> n)\<rparr>))"

text \<open>
  \<^verbatim>\<open>std::realloc(p, n)\<close>: a failed call returns null and leaves the block of \<^verbatim>\<open>p\<close> as it
  is. Otherwise the block returned has \<^verbatim>\<open>n\<close> bytes, of which the first
  \<^verbatim>\<open>min(old_size, n)\<close> are those of the block of \<^verbatim>\<open>p\<close>, and the block of \<^verbatim>\<open>p\<close> is
  released when the block has moved. The blocks that callers own hold no
  \<^verbatim>\<open>PoolBlock\<close> header, so the move carries \<^verbatim>\<open>bytes\<close> over, as \<^verbatim>\<open>memcpy\<close> does. For a
  pointer that is not a block of the system allocator C++ leaves the call undefined; the
  model then has no old contents to carry over.
\<close>

definition sys_realloc :: "heap \<Rightarrow> addr \<Rightarrow> size_t \<Rightarrow> addr \<times> heap" where
  "sys_realloc h p n =
     (case sys_results h of
        [] \<Rightarrow> (0, h)
      | a # rest \<Rightarrow>
          if a = 0 then (0, h\<lparr>sys_results := rest\<rparr>)
          else
            (let old_size = (case sys_blocks h p of Some m \<Rightarrow> m | None \<Rightarrow> 0);
                 h1 = (if a = p then h else memcpy h a p (min old_size n))
             in (a, h1\<lparr>sys_results := rest,
                       sys_blocks := ((sys_blocks h)(p := None))(a \<mapsto> n)\<rparr>)))"

subsection \<open>MemoryBlock and MemoryPoolConfig\<close>

text \<open>
  The tracking record. The members \<^verbatim>\<open>allocation_time\<close> (a clock reading) and
  \<^verbatim>\<open>stack_trace\<close> (the text of a backtrace) are values of the environment that no
  function of the manager reads back; they are not part of the record here.
\<close>

record MemoryBlock =
  mb_ptr :: addr
  mb_size :: size_t
  mb_file :: string
  mb_line :: int
  is_freed :: bool

record MemoryPoolConfig =
  block_size :: size_t
  initial_capacity :: size_t
  max_capacity :: size_t
  enable_leak_detection :: bool
  enable_corruption_detection :: bool
  enable_performance_monitoring :: bool

definition MemoryPoolConfig_default :: MemoryPoolConfig where
  "MemoryPoolConfig_default =
     \<lparr>block_size = 4096, initial_capacity = 1024, max_capacity = 65536,
      enable_leak_detection = True, enable_corruption_detection = True,
      enable_performance_monitoring = True\<rparr>"

subsection \<open>MemoryPool\<close>

text \<open>
  \<^verbatim>\<open>struct PoolBlock { PoolBlock* next; char data[1]; }\<close>: the payload starts 8 bytes
  after the header, and the struct with its padding is 16 bytes long.
\<close>

definition sizeof_PoolBlock :: size_t where
  "sizeof_PoolBlock = 16"

definition offsetof_data :: addr where
  "offsetof_data = 8"

text \<open>\<^verbatim>\<open>pool_mutex\<close> is \<^verbatim>\<open>True\<close> while the executing thread holds the mutex.\<close>

record MemoryPool =
  pool_mutex :: bool
  free_list :: addr
  pool_allocated_blocks :: "addr list"
  config :: MemoryPoolConfig
  allocated_count :: size_t
  total_allocated :: size_t

definition lock_guard :: "MemoryPool \<Rightarrow> fault + MemoryPool" where
  "lock_guard p = (if pool_mutex p then Inl SelfDeadlock else Inr (p\<lparr>pool_mutex := True\<rparr>))"

definition expand_pool :: "MemoryPool \<Rightarrow> heap \<Rightarrow> fault + (MemoryPool \<times> heap)" where
  "expand_pool p h =
     (case lock_guard p of
        Inl e \<Rightarrow> Inl e
      | Inr p1 \<Rightarrow>
          (let block_size_with_header = block_size (config p1) + sizeof_PoolBlock;
               (new_block, h1) = sys_malloc h block_size_with_header
           in if new_block = 0 then Inl BadAlloc
              else Inr (p1\<lparr>pool_allocated_blocks := pool_allocated_blocks p1 @ [new_block],
                            free_list := new_block,
                            pool_mutex := False\<rparr>,
                        h1\<lparr>next_field := (next_field h1)(new_block := free_list p1)\<rparr>)))"

definition MemoryPool_ctor :: "MemoryPoolConfig \<Rightarrow> heap \<Rightarrow> fault + (MemoryPool \<times> heap)" where
  "MemoryPool_ctor cfg h =
     expand_pool \<lparr>pool_mutex = False, free_list = 0, pool_allocated_blocks = [],
                  config = cfg, allocated_count = 0, total_allocated = 0\<rparr> h"

definition MemoryPool_allocate :: "MemoryPool \<Rightarrow> heap \<Rightarrow> fault + (addr \<times> MemoryPool \<times> heap)" where
  "MemoryPool_allocate p h =
     (case lock_guard p of
        Inl e \<Rightarrow> Inl e
      | Inr p1 \<Rightarrow>
          (case (if free_list p1 = 0 then expand_pool p1 h else Inr (p1, h)) of
             Inl e \<Rightarrow> Inl e
           | Inr (p2, h2) \<Rightarrow>
               (let block = free_list p2
                in Inr (block + offsetof_data,
                        p2\<lparr>free_list := next_field h2 block,
                           allocated_count := allocated_count p2 + 1,
                           total_allocated := total_allocated p2 + block_size (config p2),
                           pool_mutex := False\<rparr>,
                        h2))))"

definition MemoryPool_deallocate :: "MemoryPool \<Rightarrow> heap \<Rightarrow> addr \<Rightarrow> fault + (MemoryPool \<times> heap)" where
  "MemoryPool_deallocate p h ptr =
     (if ptr = 0 then Inr (p, h)
      else
        (case lock_guard p of
           Inl e \<Rightarrow> Inl e
         | Inr p1 \<Rightarrow>
             (let block = ptr - offsetof_data
              in Inr (p1\<lparr>free_list := block,
                         allocated_count := allocated_count p1 - 1,
                         pool_mutex := False\<rparr>,
                      h\<lparr>next_field := (next_field h)(block := free_list p1)\<rparr>))))"

subsection \<open>NeuralMemoryManager: state\<close>

record PerformanceMetrics =
  total_allocations :: "64 word"
  total_deallocations :: "64 word"
  total_bytes_allocated :: "64 word"
  total_bytes_deallocated :: "64 word"
  peak_memory_usage :: "64 word"
  current_memory_usage :: "64 word"

text \<open>
  The two \<^verbatim>\<open>std::unordered_map\<close>s are association lists with distinct keys, in the order
  in which the map is iterated. The C++ standard leaves that order open; the lists follow
  libstdc++, where a new key whose bucket is empty goes to the front of the element list,
  so that the newest key comes first (the 8 sizes of the constructor fall into 8 different
  buckets of the 13 that the table has from its first insertion on). \<^verbatim>\<open>m[k] = v\<close>
  replaces the value of a key that is present in place and puts a new key at the front.
  \<^verbatim>\<open>memory_pools\<close> owns the pools, addressed by position.
\<close>

definition umap_assign :: "'k \<Rightarrow> 'v \<Rightarrow> ('k \<times> 'v) list \<Rightarrow> ('k \<times> 'v) list" where
  "umap_assign k v m = (if k \<in> fst ` set m then AList.update k v m else (k, v) # m)"

record NeuralMemoryManager =
  default_config :: MemoryPoolConfig
  memory_pools :: "MemoryPool list"
  pool_index_map :: "(size_t \<times> size_t) list"
  allocated_blocks :: "(addr \<times> MemoryBlock) list"
  metrics :: PerformanceMetrics
  corruption_detector_enabled :: bool

record LeakReport =
  leaked_blocks :: size_t
  leaked_bytes :: size_t
  leaks :: "MemoryBlock list"

record MemoryStats =
  total_allocated_stat :: "64 word"
  total_deallocated_stat :: "64 word"
  current_usage :: "64 word"
  peak_usage :: "64 word"
  active_allocations :: size_t
  total_pools :: size_t

subsection \<open>Tracking and metrics\<close>

definition track_allocation ::
  "NeuralMemoryManager \<Rightarrow> addr \<Rightarrow> size_t \<Rightarrow> string option \<Rightarrow> int \<Rightarrow> NeuralMemoryManager" where
  "track_allocation st ptr sz file line =
     (let block = \<lparr>mb_ptr = ptr, mb_size = sz,
                    mb_file = (case file of Some f \<Rightarrow> f | None \<Rightarrow> ''unknown''),
                    mb_line = line, is_freed = False\<rparr>
      in st\<lparr>allocated_blocks := umap_assign ptr block (allocated_blocks st)\<rparr>)"

definition track_deallocation :: "NeuralMemoryManager \<Rightarrow> addr \<Rightarrow> NeuralMemoryManager" where
  "track_deallocation st ptr =
     (case map_of (allocated_blocks st) ptr of
        None \<Rightarrow> st
      | Some b \<Rightarrow>
          st\<lparr>allocated_blocks := AList.update ptr (b\<lparr>is_freed := True\<rparr>) (allocated_blocks st)\<rparr>)"

text \<open>
  The loop that raises \<^verbatim>\<open>peak_memory_usage\<close>:
  \<^verbatim>\<open>while (current > peak) { peak_memory_usage.compare_exchange_weak(peak, current);
  current = current_memory_usage.load(); }\<close>. The exchange stores \<^verbatim>\<open>current\<close> when the
  counter equals the local \<^verbatim>\<open>peak\<close> and leaves \<^verbatim>\<open>peak\<close> as it is; otherwise it loads
  the counter into \<^verbatim>\<open>peak\<close>. The result is the counter when the loop ends.
\<close>

function peak_loop :: "64 word \<Rightarrow> 64 word \<Rightarrow> 64 word \<Rightarrow> 64 word" where
  "peak_loop stored current peak =
     (if current > peak
      then (if stored = peak then peak_loop current current peak
            else peak_loop stored current stored)
      else stored)"
  by pat_completeness auto
termination
  by (relation "measure (\<lambda>(stored, current, peak).
        if \<not> current > peak then 0 else if stored = current then 1
        else if stored = peak then 2 else 3)") auto

definition update_performance_metrics ::
  "NeuralMemoryManager \<Rightarrow> size_t \<Rightarrow> bool \<Rightarrow> NeuralMemoryManager" where
  "update_performance_metrics st n is_allocation =
     (let m = metrics st in
      if is_allocation then
        (let m1 = m\<lparr>total_allocations := total_allocations m + 1,
                    total_bytes_allocated := total_bytes_allocated m + n,
                    current_memory_usage := current_memory_usage m + n\<rparr>;
             current = current_memory_usage m1;
             peak = peak_memory_usage m1
         in st\<lparr>metrics := m1\<lparr>peak_memory_usage := peak_loop peak current peak\<rparr>\<rparr>)
      else
        st\<lparr>metrics := m\<lparr>total_deallocations := total_deallocations m + 1,
                         total_bytes_deallocated := total_bytes_deallocated m + n,
                         current_memory_usage := current_memory_usage m - n\<rparr>\<rparr>)"

definition get_memory_stats :: "NeuralMemoryManager \<Rightarrow> MemoryStats" where
  "get_memory_stats st =
     \<lparr>total_allocated_stat = total_bytes_allocated (metrics st),
      total_deallocated_stat = total_bytes_deallocated (metrics st),
      current_usage = current_memory_usage (metrics st),
      peak_usage = peak_memory_usage (metrics st),
      active_allocations = of_nat (length (allocated_blocks st)),
      total_pools = of_nat (length (memory_pools st))\<rparr>"

subsection \<open>Size classes\<close>

text \<open>\<^verbatim>\<open>SIZE_MAX\<close> is the word of all ones.\<close>

definition SIZE_MAX :: size_t where
  "SIZE_MAX = - 1"

fun closest_scan :: "size_t \<Rightarrow> (size_t \<times> size_t) list \<Rightarrow> size_t \<Rightarrow> size_t \<Rightarrow> size_t" where
  "closest_scan sz [] best_index min_diff = best_index"
| "closest_scan sz ((k, v) # rest) best_index min_diff =
     (let diff = (if sz > k then sz - k else k - sz)
      in if diff < min_diff then closest_scan sz rest v diff
         else closest_scan sz rest best_index min_diff)"

definition get_pool_index :: "NeuralMemoryManager \<Rightarrow> size_t \<Rightarrow> size_t" where
  "get_pool_index st sz =
     (case map_of (pool_index_map st) sz of
        Some i \<Rightarrow> i
      | None \<Rightarrow> closest_scan sz (pool_index_map st) 0 SIZE_MAX)"

text \<open>
  \<^verbatim>\<open>get_or_create_pool\<close> returns a \<^verbatim>\<open>MemoryPool*\<close>; here it returns the position of
  that pool in \<^verbatim>\<open>memory_pools\<close>.
\<close>

definition get_or_create_pool ::
  "NeuralMemoryManager \<Rightarrow> heap \<Rightarrow> size_t \<Rightarrow> fault + (nat \<times> NeuralMemoryManager \<times> heap)" where
  "get_or_create_pool st h sz =
     (let pool_idx = get_pool_index st sz in
      if unat pool_idx < length (memory_pools st) then Inr (unat pool_idx, st, h)
      else
        (let cfg = \<lparr>block_size = sz, initial_capacity = 1024, max_capacity = 65536,
                    enable_leak_detection = enable_leak_detection (default_config st),
                    enable_corruption_detection = enable_corruption_detection (default_config st),
                    enable_performance_monitoring = enable_performance_monitoring (default_config st)\<rparr>
         in case MemoryPool_ctor cfg h of
              Inl e \<Rightarrow> Inl e
            | Inr (p, h1) \<Rightarrow>
                (let pools = memory_pools st @ [p]
                 in Inr (length pools - 1,
                         st\<lparr>memory_pools := pools,
                            pool_index_map :=
                              umap_assign sz (of_nat (length pools) - 1) (pool_index_map st)\<rparr>,
                         h1))))"

subsection \<open>Construction\<close>

fun ctor_loop ::
  "size_t list \<Rightarrow> NeuralMemoryManager \<Rightarrow> heap \<Rightarrow> fault + (NeuralMemoryManager \<times> heap)" where
  "ctor_loop [] st h = Inr (st, h)"
| "ctor_loop (sz # rest) st h =
     (let pool_config = \<lparr>block_size = sz, initial_capacity = 1024, max_capacity = 65536,
                         enable_leak_detection = enable_leak_detection (default_config st),
                         enable_corruption_detection = enable_corruption_detection (default_config st),
                         enable_performance_monitoring = enable_performance_monitoring (default_config st)\<rparr>
      in case MemoryPool_ctor pool_config h of
           Inl e \<Rightarrow> Inl e
         | Inr (p, h1) \<Rightarrow>
             (let pools = memory_pools st @ [p]
              in ctor_loop rest
                   (st\<lparr>memory_pools := pools,
                       pool_index_map :=
                         umap_assign sz (of_nat (length pools) - 1) (pool_index_map st)\<rparr>)
                   h1))"

definition common_sizes :: "size_t list" where
  "common_sizes = [64, 128, 256, 512, 1024, 2048, 4096, 8192]"

definition NeuralMemoryManager_ctor ::
  "MemoryPoolConfig \<Rightarrow> heap \<Rightarrow> fault + (NeuralMemoryManager \<times> heap)" where
  "NeuralMemoryManager_ctor cfg h =
     ctor_loop common_sizes
       \<lparr>default_config = cfg, memory_pools = [], pool_index_map = [], allocated_blocks = [],
        metrics = \<lparr>total_allocations = 0, total_deallocations = 0, total_bytes_allocated = 0,
                   total_bytes_deallocated = 0, peak_memory_usage = 0,
                   current_memory_usage = 0\<rparr>,
        corruption_detector_enabled = enable_corruption_detection cfg\<rparr>
       h"

subsection \<open>allocate, deallocate, reallocate\<close>

definition allocate ::
  "NeuralMemoryManager \<Rightarrow> heap \<Rightarrow> size_t \<Rightarrow> string option \<Rightarrow> int
     \<Rightarrow> fault + (addr \<times> NeuralMemoryManager \<times> heap)" where
  "allocate st h sz file line =
     (case get_or_create_pool st h sz of
        Inl e \<Rightarrow> Inl e
      | Inr (i, st1, h1) \<Rightarrow>
          (case MemoryPool_allocate (memory_pools st1 ! i) h1 of
             Inl e \<Rightarrow> Inl e
           | Inr (ptr, p, h2) \<Rightarrow>
               (let st2 = st1\<lparr>memory_pools := (memory_pools st1)[i := p]\<rparr>;
                    st3 = (if enable_leak_detection (default_config st2)
                           then track_allocation st2 ptr sz file line else st2);
                    st4 = (if enable_performance_monitoring (default_config st3)
                           then update_performance_metrics st3 sz True else st3)
                in Inr (ptr, st4, h2))))"

text \<open>
  The search of \<^verbatim>\<open>deallocate\<close>: one turn of the loop for each pool, every turn looking
  the pointer up in the tracking map; a hit ends the loop.
\<close>

fun find_pool_loop :: "MemoryPool list \<Rightarrow> NeuralMemoryManager \<Rightarrow> addr \<Rightarrow> nat option" where
  "find_pool_loop [] st ptr = None"
| "find_pool_loop (pool # rest) st ptr =
     (case map_of (allocated_blocks st) ptr of
        Some b \<Rightarrow>
          (let original_size = mb_size b;
               pool_idx = get_pool_index st original_size
           in if unat pool_idx < length (memory_pools st) then Some (unat pool_idx) else None)
      | None \<Rightarrow> find_pool_loop rest st ptr)"

definition deallocate ::
  "NeuralMemoryManager \<Rightarrow> heap \<Rightarrow> addr \<Rightarrow> fault + (NeuralMemoryManager \<times> heap)" where
  "deallocate st h ptr =
     (if ptr = 0 then Inr (st, h)
      else
        (case (case find_pool_loop (memory_pools st) st ptr of
                 None \<Rightarrow> Inr (st, h)
               | Some i \<Rightarrow>
                   (case MemoryPool_deallocate (memory_pools st ! i) h ptr of
                      Inl e \<Rightarrow> Inl e
                    | Inr (p, h1) \<Rightarrow>
                        Inr (st\<lparr>memory_pools := (memory_pools st)[i := p]\<rparr>, h1))) of
           Inl e \<Rightarrow> Inl e
         | Inr (st1, h1) \<Rightarrow>
             (let st2 = (if enable_leak_detection (default_config st1)
                         then track_deallocation st1 ptr else st1);
                  st3 = (if enable_performance_monitoring (default_config st2)
                         then (case map_of (allocated_blocks st2) ptr of
                                 Some b \<Rightarrow> update_performance_metrics st2 (mb_size b) False
                               | None \<Rightarrow> st2)
                         else st2)
              in Inr (st3, h1))))"

definition reallocate ::
  "NeuralMemoryManager \<Rightarrow> heap \<Rightarrow> addr \<Rightarrow> size_t \<Rightarrow> string option \<Rightarrow> int
     \<Rightarrow> fault + (addr \<times> NeuralMemoryManager \<times> heap)" where
  "reallocate st h ptr new_size file line =
     (if ptr = 0 then allocate st h new_size file line
      else if new_size = 0 then
        (case deallocate st h ptr of
           Inl e \<Rightarrow> Inl e
         | Inr (st1, h1) \<Rightarrow> Inr (0, st1, h1))
      else
        (case map_of (allocated_blocks st) ptr of
           None \<Rightarrow>
             (let (new_ptr, h1) = sys_realloc h ptr new_size
              in if new_ptr \<noteq> 0
                 then Inr (new_ptr, track_allocation st new_ptr new_size file line, h1)
                 else Inr (new_ptr, st, h1))
         | Some b \<Rightarrow>
             (let old_size = mb_size b
              in if new_size \<le> old_size then Inr (ptr, st, h)
                 else
                   (case allocate st h new_size file line of
                      Inl e \<Rightarrow> Inl e
                    | Inr (new_ptr, st1, h1) \<Rightarrow>
                        if new_ptr \<noteq> 0
                        then (case deallocate st1 (memcpy h1 new_ptr ptr old_size) ptr of
                                Inl e \<Rightarrow> Inl e
                              | Inr (st2, h2) \<Rightarrow> Inr (new_ptr, st2, h2))
                        else Inr (new_ptr, st1, h1)))))"

subsection \<open>Leak detection\<close>

fun detect_loop :: "(addr \<times> MemoryBlock) list \<Rightarrow> LeakReport \<Rightarrow> LeakReport" where
  "detect_loop [] report = report"
| "detect_loop ((p, block) # rest) report =
     (if \<not> is_freed block
      then detect_loop rest
             (report\<lparr>leaked_blocks := leaked_blocks report + 1,
                     leaked_bytes := leaked_bytes report + mb_size block,
                     leaks := leaks report @ [block]\<rparr>)
      else detect_loop rest report)"

definition detect_leaks :: "NeuralMemoryManager \<Rightarrow> LeakReport" where
  "detect_leaks st =
     detect_loop (allocated_blocks st) \<lparr>leaked_blocks = 0, leaked_bytes = 0, leaks = []\<rparr>"

subsection \<open>The process-wide instance and NeuralUniquePtr\<close>

text \<open>
  \<^verbatim>\<open>get_instance\<close> builds a manager with the default configuration when there is none.
  The process state is the \<^verbatim>\<open>instance\<close> pointer (\<^verbatim>\<open>None\<close> when null) and the heap.
\<close>

type_synonym process = "NeuralMemoryManager option \<times> heap"

definition get_instance :: "process \<Rightarrow> fault + (NeuralMemoryManager \<times> heap)" where
  "get_instance g =
     (case fst g of
        Some m \<Rightarrow> Inr (m, snd g)
      | None \<Rightarrow> NeuralMemoryManager_ctor MemoryPoolConfig_default (snd g))"

definition instance_deallocate :: "process \<Rightarrow> addr \<Rightarrow> fault + process" where
  "instance_deallocate g ptr =
     (case get_instance g of
        Inl e \<Rightarrow> Inl e
      | Inr (m, h) \<Rightarrow>
          (case deallocate m h ptr of
             Inl e \<Rightarrow> Inl e
           | Inr (m1, h1) \<Rightarrow> Inr (Some m1, h1)))"

record NeuralUniquePtr =
  up_ptr :: addr
  managed :: bool

definition NeuralUniquePtr_ctor :: "addr \<Rightarrow> bool \<Rightarrow> NeuralUniquePtr" where
  "NeuralUniquePtr_ctor p auto_manage = \<lparr>up_ptr = p, managed = auto_manage\<rparr>"

definition NeuralUniquePtr_dtor :: "NeuralUniquePtr \<Rightarrow> process \<Rightarrow> fault + process" where
  "NeuralUniquePtr_dtor u g =
     (if up_ptr u \<noteq> 0 \<and> managed u then instance_deallocate g (up_ptr u) else Inr g)"

text \<open>The move constructor: the new handle, and what is left of \<^verbatim>\<open>other\<close>.\<close>

definition NeuralUniquePtr_move :: "NeuralUniquePtr \<Rightarrow> NeuralUniquePtr \<times> NeuralUniquePtr" where
  "NeuralUniquePtr_move other =
     (\<lparr>up_ptr = up_ptr other, managed = managed other\<rparr>,
      other\<lparr>up_ptr := 0, managed := False\<rparr>)"

definition get :: "NeuralUniquePtr \<Rightarrow> addr" where
  "get u = up_ptr u"

definition reset :: "NeuralUniquePtr \<Rightarrow> process \<Rightarrow> addr \<Rightarrow> fault + (NeuralUniquePtr \<times> process)" where
  "reset u g p =
     (case (if up_ptr u \<noteq> 0 \<and> managed u then instance_deallocate g (up_ptr u) else Inr g) of
        Inl e \<Rightarrow> Inl e
      | Inr g1 \<Rightarrow> Inr (u\<lparr>up_ptr := p\<rparr>, g1))"

definition release :: "NeuralUniquePtr \<Rightarrow> addr \<times> NeuralUniquePtr" where
  "release u = (up_ptr u, u\<lparr>up_ptr := 0, managed := False\<rparr>)"

text \<open>
  The move assignment \<^verbatim>\<open>*this = std::move(other)\<close> between two different handles:
  the new \<^verbatim>\<open>*this\<close> and what is left of \<^verbatim>\<open>other\<close>.
\<close>

definition NeuralUniquePtr_move_assign ::
  "NeuralUniquePtr \<Rightarrow> NeuralUniquePtr \<Rightarrow> process
     \<Rightarrow> fault + (NeuralUniquePtr \<times> NeuralUniquePtr \<times> process)" where
  "NeuralUniquePtr_move_assign this other g =
     (case (if up_ptr this \<noteq> 0 \<and> managed this then instance_deallocate g (up_ptr this)
            else Inr g) of
        Inl e \<Rightarrow> Inl e
      | Inr g1 \<Rightarrow>
          Inr (this\<lparr>up_ptr := up_ptr other, managed := managed other\<rparr>,
               other\<lparr>up_ptr := 0, managed := False\<rparr>, g1))"

subsection \<open>Client programs\<close>

text \<open>
  A client of the manager is a list of calls with the default call site. \<^verbatim>\<open>run\<close> makes
  them in order, stops at the first call that does not return, and collects the pointers
  returned (0 for \<^verbatim>\<open>deallocate\<close>, which returns nothing).
\<close>

datatype request = Allocate size_t | Deallocate addr | Reallocate addr size_t

fun serve ::
  "request \<Rightarrow> NeuralMemoryManager \<Rightarrow> heap \<Rightarrow> fault + (addr \<times> NeuralMemoryManager \<times> heap)" where
  "serve (Allocate n) st h = allocate st h n None 0"
| "serve (Deallocate p) st h =
     (case deallocate st h p of Inl e \<Rightarrow> Inl e | Inr (st1, h1) \<Rightarrow> Inr (0, st1, h1))"
| "serve (Reallocate p n) st h = reallocate st h p n None 0"

fun run ::
  "request list \<Rightarrow> NeuralMemoryManager \<Rightarrow> heap
     \<Rightarrow> fault + (addr list \<times> NeuralMemoryManager \<times> heap)" where
  "run [] st h = Inr ([], st, h)"
| "run (r # rs) st h =
     (case serve r st h of
        Inl e \<Rightarrow> Inl e
      | Inr (p, st1, h1) \<Rightarrow>
          (case run rs st1 h1 of
             Inl e \<Rightarrow> Inl e
           | Inr (ps, st2, h2) \<Rightarrow> Inr (p # ps, st2, h2)))"

text \<open>
  A heap for the examples: the system allocator hands out ten page-aligned blocks and
  then fails. A caller owns one block of the system allocator already, 64 bytes at 49152
  that all hold the value 171; the rest of memory is zero.
\<close>

definition example_heap :: heap where
  "example_heap =
     \<lparr>sys_results = [4096, 8192, 12288, 16384, 20480, 24576, 28672, 32768, 36864, 40960],
      sys_blocks = (\<lambda>a. if a = 49152 then Some 64 else None),
      next_field = (\<lambda>a. 0),
      bytes = (\<lambda>a. if a - 49152 < 64 then 171 else 0)\<rparr>"

definition boot_and_run ::
  "MemoryPoolConfig \<Rightarrow> request list \<Rightarrow> fault + (addr list \<times> NeuralMemoryManager \<times> heap)" where
  "boot_and_run cfg rs =
     (case NeuralMemoryManager_ctor cfg example_heap of
        Inl e \<Rightarrow> Inl e
      | Inr (st, h) \<Rightarrow> run rs st h)"

subsection \<open>clear\_tracking, and histories of the tracking map\<close>

definition clear_tracking :: "NeuralMemoryManager \<Rightarrow> NeuralMemoryManager" where
  "clear_tracking st = st\<lparr>allocated_blocks := []\<rparr>"

text \<open>
  A history of the tracking map is the list of the calls of \<^verbatim>\<open>track_allocation\<close> and
  \<^verbatim>\<open>track_deallocation\<close> made on it; \<^verbatim>\<open>replay\<close> makes them in order.
\<close>

datatype track_event = TrackAllocation addr size_t | TrackDeallocation addr

fun replay :: "track_event list \<Rightarrow> NeuralMemoryManager \<Rightarrow> NeuralMemoryManager" where
  "replay [] st = st"
| "replay (TrackAllocation p n # es) st = replay es (track_allocation st p n None 0)"
| "replay (TrackDeallocation p # es) st = replay es (track_deallocation st p)"

text \<open>
  What the specification calls the pointers allocated and not deallocated, with their
  sizes: an allocation adds the pointer, a deallocation removes it.
\<close>

fun outstanding :: "(addr \<rightharpoonup> size_t) \<Rightarrow> track_event list \<Rightarrow> (addr \<rightharpoonup> size_t)" where
  "outstanding m [] = m"
| "outstanding m (TrackAllocation p n # es) = outstanding (m(p \<mapsto> n)) es"
| "outstanding m (TrackDeallocation p # es) = outstanding (m(p := None)) es"

text \<open>
  The invariant of the tracking map that the proofs use: its keys are distinct and every
  record is stored under its own pointer. \<^verbatim>\<open>live_sizes\<close> reads the map as the
  specification does: the size of each pointer whose record is not freed.
\<close>

definition tracker_ok :: "(addr \<times> MemoryBlock) list \<Rightarrow> bool" where
  "tracker_ok xs \<longleftrightarrow> distinct (map fst xs) \<and> (\<forall>p b. map_of xs p = Some b \<longrightarrow> mb_ptr b = p)"

definition live_sizes :: "(addr \<times> MemoryBlock) list \<Rightarrow> addr \<Rightarrow> size_t option" where
  "live_sizes xs p =
     (case map_of xs p of
        Some b \<Rightarrow> if is_freed b then None else Some (mb_size b)
      | None \<Rightarrow> None)"

subsection \<open>A handle reset several times\<close>

fun resets ::
  "addr list \<Rightarrow> NeuralUniquePtr \<Rightarrow> process \<Rightarrow> fault + (NeuralUniquePtr \<times> process)" where
  "resets [] u g = Inr (u, g)"
| "resets (p # ps) u g =
     (case reset u g p of Inl e \<Rightarrow> Inl e | Inr (u1, g1) \<Rightarrow> resets ps u1 g1)"

subsection \<open>Notions used in the statements\<close>

text \<open>The absolute difference that \<^verbatim>\<open>get_pool_index\<close> computes for each size class.\<close>

definition abs_diff :: "size_t \<Rightarrow> size_t \<Rightarrow> size_t" where
  "abs_diff sz k = (if sz > k then sz - k else k - sz)"

text \<open>
  The payload pointer of a block is the block address plus \<^verbatim>\<open>offsetof(PoolBlock, data)\<close>;
  it is non-null unless the sum wraps to 0. \<^verbatim>\<open>heap_ok\<close> says that this holds of every
  block address the allocator can hand out next: the heads of the free lists, the
  \<^verbatim>\<open>next\<close> fields, and what the system allocator will return.
\<close>

definition payload_nonnull :: "addr \<Rightarrow> bool" where
  "payload_nonnull b \<longleftrightarrow> b + offsetof_data \<noteq> 0"

definition heap_ok :: "NeuralMemoryManager \<Rightarrow> heap \<Rightarrow> bool" where
  "heap_ok st h \<longleftrightarrow>
     (\<forall>p\<in>set (memory_pools st). payload_nonnull (free_list p))
     \<and> (\<forall>a. payload_nonnull (next_field h a))
     \<and> (\<forall>a\<in>set (sys_results h). payload_nonnull a)"

text \<open>
  The size-class table that the constructor leaves, in iteration order, and the condition
  that a manager still has it, with its 8 pools.
\<close>

definition construction_table :: "(size_t \<times> size_t) list" where
  "construction_table =
     [(8192, 7), (4096, 6), (2048, 5), (1024, 4), (512, 3), (256, 2), (128, 1), (64, 0)]"

definition classes_ok :: "NeuralMemoryManager \<Rightarrow> bool" where
  "classes_ok st \<longleftrightarrow>
     pool_index_map st = construction_table \<and> length (memory_pools st) = 8"

section \<open>Properties\<close>

subsection \<open>Assignment to a map\<close>

lemma map_of_umap_assign: "map_of (umap_assign k v m) = (map_of m)(k \<mapsto> v)"
  by (simp add: umap_assign_def update_conv')

lemma distinct_umap_assign:
  "distinct (map fst m) \<Longrightarrow> distinct (map fst (umap_assign k v m))"
  by (simp add: umap_assign_def distinct_update)

subsection \<open>Construction\<close>

lemma ctor_loop_fields:
  "ctor_loop szs st h = Inr (st', h') \<Longrightarrow>
     allocated_blocks st' = allocated_blocks st \<and> default_config st' = default_config st
     \<and> metrics st' = metrics st"
proof (induction szs arbitrary: st h)
  case Nil
  then show ?case by simp
next
  case (Cons sz szs)
  then show ?case
    by (fastforce simp: Let_def split: sum.splits prod.splits)
qed

lemma ctor_fields:
  "NeuralMemoryManager_ctor cfg h = Inr (st, h') \<Longrightarrow>
     allocated_blocks st = [] \<and> default_config st = cfg"
  unfolding NeuralMemoryManager_ctor_def
  by (drule ctor_loop_fields) simp

lemma example_boot:
  "\<exists>st h. NeuralMemoryManager_ctor cfg example_heap = Inr (st, h)"
  by (simp add: NeuralMemoryManager_ctor_def example_heap_def common_sizes_def
      MemoryPool_ctor_def expand_pool_def lock_guard_def sys_malloc_def Let_def)

subsection \<open>deallocate on a null or untracked pointer\<close>

lemma find_pool_loop_untracked:
  "map_of (allocated_blocks st) ptr = None \<Longrightarrow> find_pool_loop pools st ptr = None"
  by (induction pools) simp_all

text \<open>
  Claim C4. When \<^verbatim>\<open>ptr\<close> is null or has no record in the tracking map,
  \<^verbatim>\<open>deallocate(ptr)\<close> returns and leaves the manager and the heap exactly as they were:
  no free list, no counter and no \<^verbatim>\<open>next\<close> field changes, and
  \<^verbatim>\<open>MemoryPool::deallocate\<close> is not called on the address.
\<close>

theorem deallocate_untracked_noop:
  assumes "ptr = 0 \<or> map_of (allocated_blocks st) ptr = None"
  shows "deallocate st h ptr = Inr (st, h)"
proof (cases "ptr = 0")
  case True
  then show ?thesis by (simp add: deallocate_def)
next
  case False
  with assms have u: "map_of (allocated_blocks st) ptr = None" by simp
  then show ?thesis
    by (simp add: deallocate_def find_pool_loop_untracked track_deallocation_def)
qed

theorem deallocate_untracked_noop_witness:
  "\<exists>st h. NeuralMemoryManager_ctor MemoryPoolConfig_default example_heap = Inr (st, h)
     \<and> map_of (allocated_blocks st) 12345 = None
     \<and> deallocate st h 12345 = Inr (st, h) \<and> deallocate st h 0 = Inr (st, h)"
proof -
  obtain st h where b: "NeuralMemoryManager_ctor MemoryPoolConfig_default example_heap = Inr (st, h)"
    using example_boot by blast
  then have u: "map_of (allocated_blocks st) 12345 = None"
    by (simp add: ctor_fields)
  have "deallocate st h 12345 = Inr (st, h)"
    using deallocate_untracked_noop [of 12345 st h] u by simp
  moreover have "deallocate st h 0 = Inr (st, h)"
    using deallocate_untracked_noop [of 0 st h] by simp
  ultimately show ?thesis using b u by blast
qed

subsection \<open>MemoryPool::allocate on an empty free list\<close>

text \<open>
  \<^verbatim>\<open>MemoryPool::allocate\<close> takes \<^verbatim>\<open>pool_mutex\<close> and, the free list being empty, calls
  \<^verbatim>\<open>expand_pool\<close>, which takes \<^verbatim>\<open>pool_mutex\<close> again: the call never returns, whatever
  the pool and the heap.
\<close>

lemma MemoryPool_allocate_empty:
  "free_list p = 0 \<Longrightarrow> MemoryPool_allocate p h = Inl SelfDeadlock"
  by (simp add: MemoryPool_allocate_def lock_guard_def expand_pool_def)

text \<open>
  Claim C8 says that every call of \<^verbatim>\<open>MemoryPool::allocate\<close> terminates, expanding the pool
  once when the free list is empty without taking a lock it holds. The code at a failing
  input: a pool is constructed (one block on its free list), \<^verbatim>\<open>allocate\<close> is called
  (the block is handed out, the free list is empty) and called again: the second call
  blocks on its own mutex.
\<close>

theorem MemoryPool_second_allocate_deadlocks:
  "(case MemoryPool_ctor (MemoryPoolConfig_default\<lparr>block_size := 64\<rparr>) example_heap of
      Inl e \<Rightarrow> Inl e
    | Inr (p, h) \<Rightarrow>
        (case MemoryPool_allocate p h of
           Inl e \<Rightarrow> Inl e
         | Inr (ptr, p1, h1) \<Rightarrow>
             (case MemoryPool_allocate p1 h1 of
                Inl e \<Rightarrow> Inl e
              | Inr (ptr2, p2, h2) \<Rightarrow> Inr (ptr, ptr2))))
   = Inl SelfDeadlock"
  by (simp add: MemoryPool_ctor_def MemoryPoolConfig_default_def example_heap_def
      expand_pool_def lock_guard_def sys_malloc_def MemoryPool_allocate_def Let_def)

subsection \<open>The system realloc\<close>

lemma sys_realloc_next_field: "next_field (snd (sys_realloc h p n)) = next_field h"
  by (simp add: sys_realloc_def memcpy_def Let_def split: list.splits)

lemma sys_realloc_nulls: "sys_results (snd (sys_realloc h p n)) = tl (sys_results h)"
  by (simp add: sys_realloc_def memcpy_def Let_def split: list.splits)

lemma sys_realloc_results_subset:
  "set (sys_results (snd (sys_realloc h p n))) \<subseteq> set (sys_results h)"
  by (auto simp: sys_realloc_def memcpy_def Let_def split: list.splits)

lemma sys_realloc_null_bytes:
  "fst (sys_realloc h p n) = 0 \<Longrightarrow> bytes (snd (sys_realloc h p n)) = bytes h"
  by (simp add: sys_realloc_def Let_def split: list.splits if_splits)

lemma memcpy_bytes:
  "i < n \<Longrightarrow> bytes (memcpy h dst src n) (dst + i) = bytes h (src + i)"
  by (simp add: memcpy_def)

lemma sys_realloc_carries:
  assumes "fst (sys_realloc h p n) \<noteq> 0"
    and "i < min (case sys_blocks h p of Some m \<Rightarrow> m | None \<Rightarrow> 0) n"
  shows "bytes (snd (sys_realloc h p n)) (fst (sys_realloc h p n) + i) = bytes h (p + i)"
proof (cases "sys_results h")
  case Nil
  with assms(1) show ?thesis by (simp add: sys_realloc_def)
next
  case (Cons a rest)
  with assms show ?thesis
    by (simp add: sys_realloc_def Let_def memcpy_bytes split: if_splits)
qed

lemma sys_realloc_releases:
  assumes "fst (sys_realloc h p n) \<noteq> 0"
  shows "sys_blocks (snd (sys_realloc h p n)) (fst (sys_realloc h p n)) = Some n"
    and "fst (sys_realloc h p n) \<noteq> p \<Longrightarrow> sys_blocks (snd (sys_realloc h p n)) p = None"
  using assms
  by (simp_all add: sys_realloc_def Let_def split: list.splits if_splits)

subsection \<open>reallocate on an untracked pointer\<close>

text \<open>
  Claim C9. For a non-null pointer without a record in the tracking map and a non-zero
  \<^verbatim>\<open>new_size\<close>, \<^verbatim>\<open>reallocate\<close> returns what the system \<^verbatim>\<open>realloc\<close> returns; the pools,
  the size-class table, the counters and the block headers are untouched; and when the
  result is non-null it has a fresh unfreed record of \<^verbatim>\<open>new_size\<close> bytes in the tracking
  map, whatever \<^verbatim>\<open>enable_leak_detection\<close> says, and the first
  \<^verbatim>\<open>min(old_size, new_size)\<close> bytes at it are those at the old pointer, as \<^verbatim>\<open>realloc\<close>
  leaves them (when the result is null the manager and the bytes in memory are unchanged).
\<close>

theorem reallocate_untracked:
  assumes "ptr \<noteq> 0" and "new_size \<noteq> 0" and "map_of (allocated_blocks st) ptr = None"
  shows "\<exists>st'. reallocate st h ptr new_size file line
             = Inr (fst (sys_realloc h ptr new_size), st', snd (sys_realloc h ptr new_size))
           \<and> memory_pools st' = memory_pools st
           \<and> pool_index_map st' = pool_index_map st
           \<and> metrics st' = metrics st
           \<and> next_field (snd (sys_realloc h ptr new_size)) = next_field h
           \<and> (if fst (sys_realloc h ptr new_size) \<noteq> 0
              then map_of (allocated_blocks st') (fst (sys_realloc h ptr new_size))
                     = Some \<lparr>mb_ptr = fst (sys_realloc h ptr new_size), mb_size = new_size,
                             mb_file = (case file of Some f \<Rightarrow> f | None \<Rightarrow> ''unknown''),
                             mb_line = line, is_freed = False\<rparr>
                   \<and> (\<forall>i < min (case sys_blocks h ptr of Some m \<Rightarrow> m | None \<Rightarrow> 0) new_size.
                         bytes (snd (sys_realloc h ptr new_size))
                               (fst (sys_realloc h ptr new_size) + i)
                           = bytes h (ptr + i))
              else st' = st \<and> bytes (snd (sys_realloc h ptr new_size)) = bytes h)"
proof -
  have nf: "next_field (snd (sys_realloc h ptr new_size)) = next_field h"
    by (rule sys_realloc_next_field)
  show ?thesis
  proof (cases "fst (sys_realloc h ptr new_size) = 0")
    case True
    then have "bytes (snd (sys_realloc h ptr new_size)) = bytes h"
      by (rule sys_realloc_null_bytes)
    with assms True nf show ?thesis
      by (simp add: reallocate_def split_beta)
  next
    case False
    then have "\<forall>i < min (case sys_blocks h ptr of Some m \<Rightarrow> m | None \<Rightarrow> 0) new_size.
                 bytes (snd (sys_realloc h ptr new_size)) (fst (sys_realloc h ptr new_size) + i)
                   = bytes h (ptr + i)"
      by (simp add: sys_realloc_carries)
    with assms False nf show ?thesis
      by (simp add: reallocate_def split_beta track_allocation_def map_of_umap_assign)
  qed
qed

lemma example_boot_noleak_sys:
  "(case NeuralMemoryManager_ctor (MemoryPoolConfig_default\<lparr>enable_leak_detection := False\<rparr>)
           example_heap of
      Inl e \<Rightarrow> False
    | Inr (st, h) \<Rightarrow> sys_results h = [36864, 40960] \<and> sys_blocks h 49152 = Some 64)"
  by code_simp

theorem reallocate_untracked_witness:
  "\<exists>st h. NeuralMemoryManager_ctor (MemoryPoolConfig_default\<lparr>enable_leak_detection := False\<rparr>)
             example_heap = Inr (st, h)
     \<and> map_of (allocated_blocks st) 49152 = None
     \<and> \<not> enable_leak_detection (default_config st)
     \<and> (\<exists>st'. reallocate st h 49152 100 None 0 = Inr (36864, st', snd (sys_realloc h 49152 100))
            \<and> memory_pools st' = memory_pools st
            \<and> metrics st' = metrics st
            \<and> map_of (allocated_blocks st') 36864
                 = Some \<lparr>mb_ptr = 36864, mb_size = 100, mb_file = ''unknown'', mb_line = 0,
                         is_freed = False\<rparr>
            \<and> (\<forall>i < 64. bytes (snd (sys_realloc h 49152 100)) (36864 + i)
                            = bytes h (49152 + i)))"
proof -
  let ?cfg = "MemoryPoolConfig_default\<lparr>enable_leak_detection := False\<rparr>"
  obtain st h where b: "NeuralMemoryManager_ctor ?cfg example_heap = Inr (st, h)"
    using example_boot by blast
  then have u: "map_of (allocated_blocks st) 49152 = None"
    and c: "\<not> enable_leak_detection (default_config st)"
    by (simp_all add: ctor_fields)
  have e: "sys_results h = [36864, 40960]" "sys_blocks h 49152 = Some 64"
    using example_boot_noleak_sys by (simp_all add: b)
  then have r: "fst (sys_realloc h 49152 100) = 36864"
    by (simp add: sys_realloc_def)
  from reallocate_untracked [of 49152 100 st h None 0] u r e(2)
  have "\<exists>st'. reallocate st h 49152 100 None 0 = Inr (36864, st', snd (sys_realloc h 49152 100))
            \<and> memory_pools st' = memory_pools st
            \<and> metrics st' = metrics st
            \<and> map_of (allocated_blocks st') 36864
                 = Some \<lparr>mb_ptr = 36864, mb_size = 100, mb_file = ''unknown'', mb_line = 0,
                         is_freed = False\<rparr>
            \<and> (\<forall>i < 64. bytes (snd (sys_realloc h 49152 100)) (36864 + i)
                            = bytes h (49152 + i))"
    by auto
  with b u c show ?thesis by blast
qed

subsection \<open>A released handle\<close>

lemma resets_unmanaged:
  "\<not> managed u \<Longrightarrow> resets ps u g = Inr (u\<lparr>up_ptr := last (up_ptr u # ps)\<rparr>, g)"
  by (induction ps arbitrary: u) (simp_all add: reset_def)

lemma move_assign_source:
  "NeuralUniquePtr_move_assign this other g = Inr (this', other', g') \<Longrightarrow>
     other' = snd (NeuralUniquePtr_move other)"
  by (auto simp: NeuralUniquePtr_move_assign_def NeuralUniquePtr_move_def split: sum.splits)

text \<open>
  Claim C10, as the code has it. After \<^verbatim>\<open>release()\<close>, and in a handle that has been
  moved from (by the move constructor or by a move assignment), the flag \<^verbatim>\<open>managed\<close> is
  false, and \<^verbatim>\<open>reset\<close> never sets it: whatever pointers \<^verbatim>\<open>ps\<close> the handle is reset
  to, one after the other, every \<^verbatim>\<open>reset\<close> returns without touching the manager or the
  heap, the handle holds the last pointer (null when there was no reset), and its
  destructor deallocates nothing. The handle is not non-owning for ever: a move assignment
  into it deallocates nothing and gives it the pointer and the \<^verbatim>\<open>managed\<close> flag of its
  source.
\<close>

theorem released_handle_owns_nothing:
  "resets ps (snd (release u)) g = Inr (\<lparr>up_ptr = last (0 # ps), managed = False\<rparr>, g)
   \<and> resets ps (snd (NeuralUniquePtr_move u)) g
       = Inr (\<lparr>up_ptr = last (0 # ps), managed = False\<rparr>, g)
   \<and> (case NeuralUniquePtr_move_assign this u g of
         Inl e \<Rightarrow> True
       | Inr (this', u', g') \<Rightarrow>
           resets ps u' g' = Inr (\<lparr>up_ptr = last (0 # ps), managed = False\<rparr>, g'))
   \<and> get \<lparr>up_ptr = last (0 # ps), managed = False\<rparr> = last (0 # ps)
   \<and> NeuralUniquePtr_dtor \<lparr>up_ptr = last (0 # ps), managed = False\<rparr> g = Inr g
   \<and> NeuralUniquePtr_move_assign \<lparr>up_ptr = last (0 # ps), managed = False\<rparr> other g
       = Inr (\<lparr>up_ptr = up_ptr other, managed = managed other\<rparr>,
              other\<lparr>up_ptr := 0, managed := False\<rparr>, g)"
proof -
  have "case NeuralUniquePtr_move_assign this u g of
         Inl e \<Rightarrow> True
       | Inr (this', u', g') \<Rightarrow>
           resets ps u' g' = Inr (\<lparr>up_ptr = last (0 # ps), managed = False\<rparr>, g')"
  proof (cases "NeuralUniquePtr_move_assign this u g")
    case (Inl e)
    then show ?thesis by simp
  next
    case (Inr r)
    obtain this' u' g' where r: "r = (this', u', g')" by (cases r)
    from move_assign_source [OF Inr [unfolded r]]
    have "u' = u\<lparr>up_ptr := 0, managed := False\<rparr>"
      by (simp add: NeuralUniquePtr_move_def)
    then show ?thesis by (simp add: Inr r resets_unmanaged)
  qed
  then show ?thesis
    by (simp add: resets_unmanaged release_def NeuralUniquePtr_move_def
        NeuralUniquePtr_dtor_def NeuralUniquePtr_move_assign_def get_def)
qed

text \<open>
  The claim as stated says that the handle is permanently non-owning and that its
  destructor deallocates nothing thereafter. On a freshly constructed manager a block of
  1024 bytes is allocated (at 20488) and owned by a second handle; a handle that has been
  released is assigned that handle by move. It then holds 20488 with \<^verbatim>\<open>managed\<close> true,
  and its destructor deallocates the block: \<^verbatim>\<open>current_usage\<close> goes from 1024 to 0 and
  the record of 20488 is freed.
\<close>

theorem released_handle_owns_again_after_move_assignment:
  "(case boot_and_run MemoryPoolConfig_default [Allocate 1024] of
      Inl e \<Rightarrow> None
    | Inr (ps, st, h) \<Rightarrow>
        (case NeuralUniquePtr_move_assign (snd (release (NeuralUniquePtr_ctor 4242 True)))
                (NeuralUniquePtr_ctor 20488 True) (Some st, h) of
           Inl e \<Rightarrow> None
         | Inr (u, other, g) \<Rightarrow>
             (case NeuralUniquePtr_dtor u g of
                Inl e \<Rightarrow> None
              | Inr (m, h') \<Rightarrow>
                  Some (ps, up_ptr u, managed u, current_usage (get_memory_stats st),
                        map_option (\<lambda>st'. current_usage (get_memory_stats st')) m,
                        map_option (\<lambda>st'. map (\<lambda>(k, b). (k, is_freed b)) (allocated_blocks st'))
                          m))))
   = Some ([20488], 20488, True, 1024, Some 0, Some [(20488, True)])"
  by code_simp

subsection \<open>Leak detection\<close>

lemma detect_loop_acc:
  "detect_loop xs r =
     r\<lparr>leaked_blocks := leaked_blocks r + of_nat (length (filter (\<lambda>b. \<not> is_freed b) (map snd xs))),
       leaked_bytes := leaked_bytes r + sum_list (map mb_size (filter (\<lambda>b. \<not> is_freed b) (map snd xs))),
       leaks := leaks r @ filter (\<lambda>b. \<not> is_freed b) (map snd xs)\<rparr>"
  by (induction xs arbitrary: r) (auto simp: algebra_simps)

lemma detect_leaks_report:
  "detect_leaks st =
     \<lparr>leaked_blocks = of_nat (length (filter (\<lambda>b. \<not> is_freed b) (map snd (allocated_blocks st)))),
      leaked_bytes = sum_list (map mb_size (filter (\<lambda>b. \<not> is_freed b) (map snd (allocated_blocks st)))),
      leaks = filter (\<lambda>b. \<not> is_freed b) (map snd (allocated_blocks st))\<rparr>"
  by (simp add: detect_leaks_def detect_loop_acc)

lemma tracker_ok_track_allocation:
  "tracker_ok (allocated_blocks st) \<Longrightarrow> tracker_ok (allocated_blocks (track_allocation st p n f l))"
  by (simp add: tracker_ok_def track_allocation_def distinct_umap_assign map_of_umap_assign)

lemma tracker_ok_track_deallocation:
  "tracker_ok (allocated_blocks st) \<Longrightarrow> tracker_ok (allocated_blocks (track_deallocation st p))"
  by (auto simp: tracker_ok_def track_deallocation_def distinct_update update_conv'
      simp del: map_of_eq_Some_iff split: option.splits)

lemma live_sizes_track_allocation:
  "live_sizes (allocated_blocks (track_allocation st p n f l))
     = (live_sizes (allocated_blocks st))(p \<mapsto> n)"
  by (auto simp: live_sizes_def track_allocation_def map_of_umap_assign)

lemma live_sizes_track_deallocation:
  "live_sizes (allocated_blocks (track_deallocation st p))
     = (live_sizes (allocated_blocks st))(p := None)"
  by (auto simp: live_sizes_def track_deallocation_def update_conv' split: option.splits)

lemma replay_tracker_ok:
  "tracker_ok (allocated_blocks st) \<Longrightarrow> tracker_ok (allocated_blocks (replay es st))"
  by (induction es st rule: replay.induct)
     (simp_all add: tracker_ok_track_allocation tracker_ok_track_deallocation)

lemma replay_live_sizes:
  "live_sizes (allocated_blocks (replay es st)) = outstanding (live_sizes (allocated_blocks st)) es"
proof (induction es st rule: replay.induct)
  case (1 st)
  then show ?case by simp
next
  case (2 p n es st)
  then show ?case
    by (simp only: replay.simps outstanding.simps live_sizes_track_allocation)
next
  case (3 p es st)
  then show ?case
    by (simp only: replay.simps outstanding.simps live_sizes_track_deallocation)
qed

lemma tracker_ok_tail:
  assumes "tracker_ok ((q, b) # xs)"
  shows "tracker_ok xs" and "map_of xs q = None" and "mb_ptr b = q"
proof -
  from assms have dd: "distinct (map fst ((q, b) # xs))"
    unfolding tracker_ok_def by blast
  from assms have own: "\<And>p c. map_of ((q, b) # xs) p = Some c \<Longrightarrow> mb_ptr c = p"
    unfolding tracker_ok_def by blast
  from dd have d: "distinct (map fst xs)" and nq: "q \<notin> fst ` set xs"
    by simp_all
  show "mb_ptr b = q" using own [of q b] by simp
  show "map_of xs q = None" using nq by (simp add: map_of_eq_None_iff)
  show "tracker_ok xs"
    unfolding tracker_ok_def
  proof (intro conjI allI impI)
    show "distinct (map fst xs)" by (rule d)
  next
    fix p c assume m: "map_of xs p = Some c"
    then have "(p, c) \<in> set xs" by (rule map_of_SomeD)
    then have "p \<in> fst ` set xs" by force
    then have "p \<noteq> q" using nq by blast
    then have "map_of ((q, b) # xs) p = Some c" using m by simp
    then show "mb_ptr c = p" by (rule own)
  qed
qed

lemma unfreed_live_sizes:
  assumes "tracker_ok xs"
  shows "map_of (map (\<lambda>b. (mb_ptr b, mb_size b)) (filter (\<lambda>b. \<not> is_freed b) (map snd xs)))
           = live_sizes xs"
  using assms
proof (induction xs)
  case Nil
  then show ?case by (simp add: live_sizes_def fun_eq_iff)
next
  case (Cons x xs)
  obtain q b where x: "x = (q, b)" by (cases x)
  note t = tracker_ok_tail [OF Cons.prems [unfolded x]]
  have none: "live_sizes xs q = None" by (simp add: live_sizes_def t(2))
  show ?case
  proof (rule ext)
    fix p
    show "map_of (map (\<lambda>b. (mb_ptr b, mb_size b))
                   (filter (\<lambda>b. \<not> is_freed b) (map snd (x # xs)))) p
            = live_sizes (x # xs) p"
      using Cons.IH [OF t(1)] none t(3)
      by (cases "p = q") (auto simp: x live_sizes_def)
  qed
qed

lemma unfreed_keys:
  assumes "tracker_ok xs"
  shows "map mb_ptr (filter (\<lambda>b. \<not> is_freed b) (map snd xs))
           = map fst (filter (\<lambda>(p, b). \<not> is_freed b) xs)"
  using assms
proof (induction xs)
  case Nil
  then show ?case by simp
next
  case (Cons x xs)
  obtain q b where x: "x = (q, b)" by (cases x)
  note t = tracker_ok_tail [OF Cons.prems [unfolded x]]
  from Cons.IH [OF t(1)] t(3) show ?case by (simp add: x)
qed

lemma unfreed_distinct:
  assumes "tracker_ok xs"
  shows "distinct (map mb_ptr (filter (\<lambda>b. \<not> is_freed b) (map snd xs)))"
proof -
  from assms have "distinct (map fst xs)" by (simp add: tracker_ok_def)
  then have "distinct (map fst (filter (\<lambda>(p, b). \<not> is_freed b) xs))"
    by (rule distinct_map_filter)
  then show ?thesis by (simp add: unfreed_keys [OF assms])
qed

text \<open>
  Claim C6. \<^verbatim>\<open>detect_leaks()\<close> reports the records of the tracking map whose
  \<^verbatim>\<open>is_freed\<close> flag is false, in the order of the map; \<^verbatim>\<open>leaked_blocks\<close> is their
  number and \<^verbatim>\<open>leaked_bytes\<close> the sum of their sizes (as \<^verbatim>\<open>size_t\<close> values). After any
  history \<^verbatim>\<open>es\<close> of tracked allocations and deallocations on an empty tracking map,
  the reported records are, one for each pointer, those of the pointers allocated and not
  deallocated since, with the sizes of their allocations.
\<close>

theorem detect_leaks_exact:
  "leaks (detect_leaks st) = filter (\<lambda>b. \<not> is_freed b) (map snd (allocated_blocks st))
   \<and> leaked_blocks (detect_leaks st) = of_nat (length (leaks (detect_leaks st)))
   \<and> leaked_bytes (detect_leaks st) = sum_list (map mb_size (leaks (detect_leaks st)))
   \<and> map_of (map (\<lambda>b. (mb_ptr b, mb_size b))
              (leaks (detect_leaks (replay es (clear_tracking st)))))
       = outstanding Map.empty es
   \<and> distinct (map mb_ptr (leaks (detect_leaks (replay es (clear_tracking st)))))"
proof -
  have ok0: "tracker_ok (allocated_blocks (clear_tracking st))"
    by (simp add: clear_tracking_def tracker_ok_def)
  have ok: "tracker_ok (allocated_blocks (replay es (clear_tracking st)))"
    by (rule replay_tracker_ok [OF ok0])
  have l0: "live_sizes (allocated_blocks (clear_tracking st)) = Map.empty"
    by (simp add: clear_tracking_def live_sizes_def fun_eq_iff)
  have "map_of (map (\<lambda>b. (mb_ptr b, mb_size b))
              (leaks (detect_leaks (replay es (clear_tracking st)))))
          = outstanding Map.empty es"
    by (simp add: detect_leaks_report unfreed_live_sizes [OF ok] replay_live_sizes l0)
  moreover have "distinct (map mb_ptr (leaks (detect_leaks (replay es (clear_tracking st)))))"
    by (simp add: detect_leaks_report unfreed_distinct [OF ok])
  ultimately show ?thesis by (simp add: detect_leaks_report)
qed

subsection \<open>allocate\<close>

lemma MemoryPool_allocate_Inr:
  assumes "MemoryPool_allocate p h = Inr (ptr, p', h')"
  shows "free_list p \<noteq> 0" and "\<not> pool_mutex p" and "ptr = free_list p + offsetof_data"
    and "h' = h"
    and "p' = p\<lparr>free_list := next_field h (free_list p),
                allocated_count := allocated_count p + 1,
                total_allocated := total_allocated p + block_size (config p)\<rparr>"
  using assms
  by (auto simp: MemoryPool_allocate_def lock_guard_def expand_pool_def Let_def
      split: if_splits)

lemma MemoryPool_ctor_Inr:
  assumes "MemoryPool_ctor cfg h = Inr (p, h')"
  shows "\<exists>a rest. sys_results h = a # rest \<and> a \<noteq> 0 \<and> free_list p = a \<and> \<not> pool_mutex p
           \<and> config p = cfg
           \<and> sys_results h' = rest \<and> next_field h' = (next_field h)(a := 0)
           \<and> bytes h' = bytes h"
  using assms
  by (auto simp: MemoryPool_ctor_def expand_pool_def lock_guard_def sys_malloc_def Let_def
      split: list.splits if_splits)

lemma get_or_create_pool_Inr:
  assumes "get_or_create_pool st h sz = Inr (i, st1, h1)"
  shows "i < length (memory_pools st1)"
    and "default_config st1 = default_config st"
    and "metrics st1 = metrics st"
    and "allocated_blocks st1 = allocated_blocks st"
    and "heap_ok st h \<Longrightarrow> heap_ok st1 h1"
proof -
  show "i < length (memory_pools st1)"
    using assms
    by (auto simp: get_or_create_pool_def Let_def split: if_splits sum.splits)
  show "default_config st1 = default_config st" "metrics st1 = metrics st"
    "allocated_blocks st1 = allocated_blocks st"
    using assms
    by (auto simp: get_or_create_pool_def Let_def split: if_splits sum.splits)
  show "heap_ok st1 h1" if ok: "heap_ok st h"
  proof (cases "unat (get_pool_index st sz) < length (memory_pools st)")
    case True
    with assms ok show ?thesis by (simp add: get_or_create_pool_def)
  next
    case False
    with assms obtain p where c: "MemoryPool_ctor
        \<lparr>block_size = sz, initial_capacity = 1024, max_capacity = 65536,
         enable_leak_detection = enable_leak_detection (default_config st),
         enable_corruption_detection = enable_corruption_detection (default_config st),
         enable_performance_monitoring = enable_performance_monitoring (default_config st)\<rparr> h
        = Inr (p, h1)"
      and s: "memory_pools st1 = memory_pools st @ [p]"
      by (auto simp: get_or_create_pool_def Let_def split: sum.splits)
    from MemoryPool_ctor_Inr [OF c] obtain a rest where
      r: "sys_results h = a # rest" "free_list p = a"
      "sys_results h1 = rest" "next_field h1 = (next_field h)(a := 0)"
      by blast
    from ok r s show ?thesis
      by (auto simp: heap_ok_def payload_nonnull_def offsetof_data_def)
  qed
qed

lemma update_performance_metrics_usage:
  "current_memory_usage (metrics (update_performance_metrics st n True))
     = current_memory_usage (metrics st) + n"
  by (simp add: update_performance_metrics_def Let_def)

lemma allocate_props:
  assumes "heap_ok st h" and "allocate st h n file line = Inr (ptr, st', h')"
  shows "ptr \<noteq> 0
         \<and> current_usage (get_memory_stats st')
             = current_usage (get_memory_stats st)
               + (if enable_performance_monitoring (default_config st) then n else 0)
         \<and> heap_ok st' h'"
proof -
  from assms(2) obtain i st1 h1 p' where
    g: "get_or_create_pool st h n = Inr (i, st1, h1)"
    and a: "MemoryPool_allocate (memory_pools st1 ! i) h1 = Inr (ptr, p', h')"
    by (auto simp: allocate_def Let_def split: sum.splits)
  note G = get_or_create_pool_Inr [OF g]
  note A = MemoryPool_allocate_Inr [OF a]
  define st2 where "st2 = st1\<lparr>memory_pools := (memory_pools st1)[i := p']\<rparr>"
  define st3 where "st3 = (if enable_leak_detection (default_config st2)
                           then track_allocation st2 ptr n file line else st2)"
  from assms(2) g a have st': "st' = (if enable_performance_monitoring (default_config st3)
                                      then update_performance_metrics st3 n True else st3)"
    by (auto simp: allocate_def Let_def st2_def st3_def)
  have ok1: "heap_ok st1 h1" using G(5) assms(1) .
  have mem: "memory_pools st1 ! i \<in> set (memory_pools st1)" using G(1) by simp
  then have "payload_nonnull (free_list (memory_pools st1 ! i))"
    using ok1 by (simp add: heap_ok_def)
  then have nn: "ptr \<noteq> 0" by (simp add: A(3) payload_nonnull_def)
  have pools: "memory_pools st' = (memory_pools st1)[i := p']"
    by (simp add: st' st3_def st2_def track_allocation_def update_performance_metrics_def Let_def)
  have "payload_nonnull (free_list p')"
    using ok1 by (simp add: A(5) A(4) heap_ok_def)
  moreover have "set ((memory_pools st1)[i := p']) \<subseteq> insert p' (set (memory_pools st1))"
    by (rule set_update_subset_insert)
  ultimately have ok': "heap_ok st' h'"
    using ok1 unfolding heap_ok_def pools A(4) by blast
  have cfg: "default_config st3 = default_config st"
    by (simp add: st3_def st2_def track_allocation_def G(2))
  have m3: "metrics st3 = metrics st"
    by (simp add: st3_def st2_def track_allocation_def G(3))
  have "current_memory_usage (metrics st')
          = current_memory_usage (metrics st)
            + (if enable_performance_monitoring (default_config st) then n else 0)"
    by (simp add: st' cfg update_performance_metrics_usage m3)
  then show ?thesis using nn ok' by (simp add: get_memory_stats_def)
qed

lemma ctor_loop_heap_ok:
  "heap_ok st h \<Longrightarrow> ctor_loop szs st h = Inr (st', h') \<Longrightarrow> heap_ok st' h'"
proof (induction szs arbitrary: st h)
  case Nil
  then show ?case by simp
next
  case (Cons sz szs)
  let ?cfg = "\<lparr>block_size = sz, initial_capacity = 1024, max_capacity = 65536,
         enable_leak_detection = enable_leak_detection (default_config st),
         enable_corruption_detection = enable_corruption_detection (default_config st),
         enable_performance_monitoring = enable_performance_monitoring (default_config st)\<rparr>"
  let ?st = "\<lambda>p. st\<lparr>memory_pools := memory_pools st @ [p],
              pool_index_map := umap_assign sz (of_nat (length (memory_pools st @ [p])) - 1)
                                  (pool_index_map st)\<rparr>"
  from Cons.prems(2) obtain p h1 where c: "MemoryPool_ctor ?cfg h = Inr (p, h1)"
    and r: "ctor_loop szs (?st p) h1 = Inr (st', h')"
    by (simp add: Let_def split: sum.splits prod.splits)
  from MemoryPool_ctor_Inr [OF c] obtain a rest where
    q: "sys_results h = a # rest" "free_list p = a"
      "sys_results h1 = rest" "next_field h1 = (next_field h)(a := 0)"
    by blast
  have z: "payload_nonnull 0" by (simp add: payload_nonnull_def offsetof_data_def)
  from Cons.prems(1) q z have "heap_ok (?st p) h1"
    by (simp add: heap_ok_def)
  from Cons.IH [OF this r] show ?case .
qed

lemma ctor_heap_ok:
  assumes "\<forall>a. payload_nonnull (next_field h a)" and "\<forall>a\<in>set (sys_results h). payload_nonnull a"
    and "NeuralMemoryManager_ctor cfg h = Inr (st, h')"
  shows "heap_ok st h'"
  using assms(3) unfolding NeuralMemoryManager_ctor_def
  by (rule ctor_loop_heap_ok [rotated]) (simp add: heap_ok_def assms(1, 2))

lemma example_heap_ok:
  "NeuralMemoryManager_ctor cfg example_heap = Inr (st, h) \<Longrightarrow> heap_ok st h"
  by (rule ctor_heap_ok [of example_heap])
     (simp_all add: example_heap_def payload_nonnull_def offsetof_data_def)

lemma example_boot_allocate:
  "(case NeuralMemoryManager_ctor MemoryPoolConfig_default example_heap of
      Inl e \<Rightarrow> False
    | Inr (st, h) \<Rightarrow>
        (case allocate st h 100 None 0 of
           Inl e \<Rightarrow> False
         | Inr (p, st1, h1) \<Rightarrow>
             p = 8200 \<and> current_memory_usage (metrics st) = 0
             \<and> map (\<lambda>(k, b). (k, mb_size b, is_freed b)) (allocated_blocks st1)
                 = [(8200, 100, False)]))"
  by code_simp

text \<open>
  Claim C3, as the code has it. When \<^verbatim>\<open>allocate(n)\<close> returns, on a heap where no
  payload pointer wraps to null, the pointer is non-null and \<^verbatim>\<open>current_usage\<close> has
  grown by the requested size \<^verbatim>\<open>n\<close> (modulo \<^verbatim>\<open>2^64\<close>) when performance monitoring
  is enabled, and is unchanged when it is disabled; the heap condition holds again afterwards.
\<close>

theorem allocate_nonnull_and_usage:
  assumes "heap_ok st h" and "allocate st h n file line = Inr (ptr, st', h')"
  shows "ptr \<noteq> 0
         \<and> current_usage (get_memory_stats st')
             = current_usage (get_memory_stats st)
               + (if enable_performance_monitoring (default_config st) then n else 0)
         \<and> heap_ok st' h'"
  using assms by (rule allocate_props)

theorem allocate_nonnull_and_usage_witness:
  "\<exists>st h st' h'. NeuralMemoryManager_ctor MemoryPoolConfig_default example_heap = Inr (st, h)
     \<and> heap_ok st h
     \<and> allocate st h 100 None 0 = Inr (8200, st', h')
     \<and> current_usage (get_memory_stats st) = 0
     \<and> current_usage (get_memory_stats st') = 100
     \<and> heap_ok st' h'"
proof -
  obtain st h where b: "NeuralMemoryManager_ctor MemoryPoolConfig_default example_heap = Inr (st, h)"
    using example_boot by blast
  have ok: "heap_ok st h" using b by (rule example_heap_ok)
  from example_boot_allocate obtain st' h' where
    a: "allocate st h 100 None 0 = Inr (8200, st', h')"
    and u: "current_memory_usage (metrics st) = 0"
    by (simp add: b split: sum.splits prod.splits)
  have c: "enable_performance_monitoring (default_config st)"
    using b by (simp add: ctor_fields MemoryPoolConfig_default_def)
  from allocate_nonnull_and_usage [OF ok a] c u
  have "current_usage (get_memory_stats st') = 100 \<and> heap_ok st' h'"
    by (simp add: get_memory_stats_def)
  with b ok a u show ?thesis by (auto simp: get_memory_stats_def)
qed

text \<open>
  The claim as stated says that \<^verbatim>\<open>current_usage\<close> grows by the block size of the size
  class that serves the request. A request of 100 bytes on a freshly constructed manager is
  served by the pool of 128-byte blocks (its \<^verbatim>\<open>allocated_count\<close> becomes 1), and
  \<^verbatim>\<open>current_usage\<close> is 100 afterwards, not 128.
\<close>

theorem allocate_counts_requested_size:
  "(case boot_and_run MemoryPoolConfig_default [Allocate 100] of
      Inl e \<Rightarrow> None
    | Inr (ps, st, h) \<Rightarrow>
        Some (ps, current_usage (get_memory_stats st),
              map (\<lambda>p. (block_size (config p), allocated_count p)) (memory_pools st)))
   = Some ([8200], 100,
           [(64, 0), (128, 1), (256, 0), (512, 0), (1024, 0), (2048, 0), (4096, 0), (8192, 0)])"
  by code_simp

subsection \<open>reallocate\<close>

lemma MemoryPool_deallocate_bytes:
  "MemoryPool_deallocate p h ptr = Inr (p', h') \<Longrightarrow> bytes h' = bytes h"
  by (auto simp: MemoryPool_deallocate_def lock_guard_def Let_def split: if_splits)

lemma deallocate_bytes:
  assumes "deallocate st h ptr = Inr (st', h')"
  shows "bytes h' = bytes h"
proof (cases "ptr = 0")
  case True
  with assms show ?thesis by (simp add: deallocate_def)
next
  case False
  show ?thesis
  proof (cases "find_pool_loop (memory_pools st) st ptr")
    case None
    with assms False show ?thesis
      by (simp add: deallocate_def Let_def)
  next
    case (Some i)
    with assms False obtain p h1 where
      m: "MemoryPool_deallocate (memory_pools st ! i) h ptr = Inr (p, h1)" and "h' = h1"
      by (simp add: deallocate_def Let_def split: sum.splits prod.splits)
    then show ?thesis using MemoryPool_deallocate_bytes [OF m] by simp
  qed
qed

text \<open>
  Claim C5, as the code has it. \<^verbatim>\<open>reallocate(ptr, new_size)\<close>:
  with a null \<^verbatim>\<open>ptr\<close> it is \<^verbatim>\<open>allocate(new_size)\<close>;
  with a non-null \<^verbatim>\<open>ptr\<close> and \<^verbatim>\<open>new_size == 0\<close> it is \<^verbatim>\<open>deallocate(ptr)\<close> and
  returns null;
  with a tracked \<^verbatim>\<open>ptr\<close> and \<^verbatim>\<open>0 < new_size <= \<close> the tracked size it returns
  \<^verbatim>\<open>ptr\<close> and changes nothing;
  with an untracked non-null \<^verbatim>\<open>ptr\<close> and \<^verbatim>\<open>new_size > 0\<close> it returns what the system
  \<^verbatim>\<open>realloc\<close> returns and leaves the pools as they are;
  with a tracked \<^verbatim>\<open>ptr\<close> and a \<^verbatim>\<open>new_size\<close> above the tracked size it calls
  \<^verbatim>\<open>allocate(new_size)\<close> and fails as that call fails; otherwise the new pointer is
  non-null, the first \<^verbatim>\<open>min(old_size, new_size)\<close> bytes of the new block are those of the
  old block, the old pointer is deallocated (a failure of that call is the failure of
  \<^verbatim>\<open>reallocate\<close>), and the new pointer is returned.
\<close>

theorem reallocate_cases:
  "reallocate st h 0 n file line = allocate st h n file line
   \<and> (ptr \<noteq> 0 \<longrightarrow>
        reallocate st h ptr 0 file line
          = (case deallocate st h ptr of
               Inl e \<Rightarrow> Inl e
             | Inr (st1, h1) \<Rightarrow> Inr (0, st1, h1)))
   \<and> (ptr \<noteq> 0 \<and> n \<noteq> 0 \<and> map_of (allocated_blocks st) ptr = Some b \<and> n \<le> mb_size b \<longrightarrow>
        reallocate st h ptr n file line = Inr (ptr, st, h))
   \<and> (ptr \<noteq> 0 \<and> n \<noteq> 0 \<and> map_of (allocated_blocks st) ptr = None \<longrightarrow>
        (\<exists>st'. reallocate st h ptr n file line
                 = Inr (fst (sys_realloc h ptr n), st', snd (sys_realloc h ptr n))
              \<and> memory_pools st' = memory_pools st))
   \<and> (ptr \<noteq> 0 \<and> map_of (allocated_blocks st) ptr = Some b \<and> mb_size b < n \<and> heap_ok st h \<longrightarrow>
        (case allocate st h n file line of
           Inl e \<Rightarrow> reallocate st h ptr n file line = Inl e
         | Inr (new_ptr, st1, h1) \<Rightarrow>
             new_ptr \<noteq> 0 \<and>
             (case deallocate st1 (memcpy h1 new_ptr ptr (mb_size b)) ptr of
                Inl e \<Rightarrow> reallocate st h ptr n file line = Inl e
              | Inr (st2, h2) \<Rightarrow>
                  reallocate st h ptr n file line = Inr (new_ptr, st2, h2)
                  \<and> (\<forall>i < min (mb_size b) n. bytes h2 (new_ptr + i) = bytes h1 (ptr + i)))))"
proof (intro conjI impI)
  show "reallocate st h 0 n file line = allocate st h n file line"
    by (simp add: reallocate_def)
next
  assume "ptr \<noteq> 0"
  then show "reallocate st h ptr 0 file line
          = (case deallocate st h ptr of
               Inl e \<Rightarrow> Inl e
             | Inr (st1, h1) \<Rightarrow> Inr (0, st1, h1))"
    by (simp add: reallocate_def)
next
  assume "ptr \<noteq> 0 \<and> n \<noteq> 0 \<and> map_of (allocated_blocks st) ptr = Some b \<and> n \<le> mb_size b"
  then show "reallocate st h ptr n file line = Inr (ptr, st, h)"
    by (simp add: reallocate_def)
next
  assume a: "ptr \<noteq> 0 \<and> n \<noteq> 0 \<and> map_of (allocated_blocks st) ptr = None"
  show "\<exists>st'. reallocate st h ptr n file line
                 = Inr (fst (sys_realloc h ptr n), st', snd (sys_realloc h ptr n))
              \<and> memory_pools st' = memory_pools st"
    using a
    by (cases "fst (sys_realloc h ptr n) = 0")
       (simp_all add: reallocate_def split_beta track_allocation_def)
next
  assume a: "ptr \<noteq> 0 \<and> map_of (allocated_blocks st) ptr = Some b \<and> mb_size b < n \<and> heap_ok st h"
  then have n0: "n \<noteq> 0" and gt: "\<not> n \<le> mb_size b"
    by (auto simp: not_le intro: word_gt_0_no [THEN iffD1])
  show "case allocate st h n file line of
           Inl e \<Rightarrow> reallocate st h ptr n file line = Inl e
         | Inr (new_ptr, st1, h1) \<Rightarrow>
             new_ptr \<noteq> 0 \<and>
             (case deallocate st1 (memcpy h1 new_ptr ptr (mb_size b)) ptr of
                Inl e \<Rightarrow> reallocate st h ptr n file line = Inl e
              | Inr (st2, h2) \<Rightarrow>
                  reallocate st h ptr n file line = Inr (new_ptr, st2, h2)
                  \<and> (\<forall>i < min (mb_size b) n. bytes h2 (new_ptr + i) = bytes h1 (ptr + i)))"
  proof (cases "allocate st h n file line")
    case (Inl e)
    with a n0 gt show ?thesis by (simp add: reallocate_def)
  next
    case (Inr r)
    obtain new_ptr st1 h1 where r: "r = (new_ptr, st1, h1)" by (cases r)
    from a have ok: "heap_ok st h" by simp
    from allocate_props [OF ok Inr [unfolded r]] have nn: "new_ptr \<noteq> 0" by simp
    show ?thesis
    proof (cases "deallocate st1 (memcpy h1 new_ptr ptr (mb_size b)) ptr")
      case (Inl e)
      with a n0 gt Inr r nn show ?thesis by (simp add: reallocate_def)
    next
      case d: (Inr q)
      obtain st2 h2 where q: "q = (st2, h2)" by (cases q)
      have "bytes h2 = bytes (memcpy h1 new_ptr ptr (mb_size b))"
        using deallocate_bytes [OF d [unfolded q]] .
      then have "\<forall>i < min (mb_size b) n. bytes h2 (new_ptr + i) = bytes h1 (ptr + i)"
        by (simp add: memcpy_bytes)
      with a n0 gt Inr r nn d q show ?thesis by (simp add: reallocate_def)
    qed
  qed
qed

lemma example_boot_tracked:
  "(case NeuralMemoryManager_ctor MemoryPoolConfig_default example_heap of
      Inl e \<Rightarrow> False
    | Inr (st, h) \<Rightarrow>
        (case allocate st h 100 None 0 of
           Inl e \<Rightarrow> False
         | Inr (p, st1, h1) \<Rightarrow>
             p = 8200
             \<and> map_option mb_size (map_of (allocated_blocks st1) 8200) = Some 100
             \<and> map_option mb_size (map_of (allocated_blocks st1) 49152) = None
             \<and> (case allocate st1 h1 300 None 0 of
                  Inl e \<Rightarrow> False
                | Inr (np, sta, ha) \<Rightarrow>
                    np = 12296
                    \<and> (case deallocate sta (memcpy ha np 8200 100) 8200 of
                         Inl e \<Rightarrow> False
                       | Inr r \<Rightarrow> True))))"
  by code_simp

theorem reallocate_cases_witness:
  "\<exists>st h st1 h1 b.
     NeuralMemoryManager_ctor MemoryPoolConfig_default example_heap = Inr (st, h)
     \<and> allocate st h 100 None 0 = Inr (8200, st1, h1)
     \<and> map_of (allocated_blocks st1) 8200 = Some b \<and> mb_size b = 100
     \<and> map_of (allocated_blocks st1) 49152 = None
     \<and> heap_ok st1 h1
     \<and> reallocate st1 h1 8200 0 None 0
         = (case deallocate st1 h1 8200 of
              Inl e \<Rightarrow> Inl e
            | Inr (st2, h2) \<Rightarrow> Inr (0, st2, h2))
     \<and> reallocate st1 h1 8200 50 None 0 = Inr (8200, st1, h1)
     \<and> (\<exists>st'. reallocate st1 h1 49152 100 None 0
                = Inr (fst (sys_realloc h1 49152 100), st', snd (sys_realloc h1 49152 100))
             \<and> memory_pools st' = memory_pools st1)
     \<and> (\<exists>sta ha st2 h2.
           allocate st1 h1 300 None 0 = Inr (12296, sta, ha)
           \<and> deallocate sta (memcpy ha 12296 8200 100) 8200 = Inr (st2, h2)
           \<and> reallocate st1 h1 8200 300 None 0 = Inr (12296, st2, h2)
           \<and> (\<forall>i < 100. bytes h2 (12296 + i) = bytes ha (8200 + i)))"
proof -
  obtain st h where b: "NeuralMemoryManager_ctor MemoryPoolConfig_default example_heap = Inr (st, h)"
    using example_boot by blast
  have ok: "heap_ok st h" using b by (rule example_heap_ok)
  have e: "case allocate st h 100 None 0 of
             Inl e \<Rightarrow> False
           | Inr (p, st1, h1) \<Rightarrow>
               p = 8200
               \<and> map_option mb_size (map_of (allocated_blocks st1) 8200) = Some 100
               \<and> map_option mb_size (map_of (allocated_blocks st1) 49152) = None
               \<and> (case allocate st1 h1 300 None 0 of
                    Inl e \<Rightarrow> False
                  | Inr (np, sta, ha) \<Rightarrow>
                      np = 12296
                      \<and> (case deallocate sta (memcpy ha np 8200 100) 8200 of
                           Inl e \<Rightarrow> False
                         | Inr r \<Rightarrow> True))"
    using example_boot_tracked by (simp add: b)
  then obtain r where ar: "allocate st h 100 None 0 = Inr r"
    by (cases "allocate st h 100 None 0") auto
  obtain p st1 h1 where r: "r = (p, st1, h1)" by (cases r)
  from e ar r have a: "allocate st h 100 None 0 = Inr (8200, st1, h1)"
    and t: "map_option mb_size (map_of (allocated_blocks st1) 8200) = Some 100"
    and u: "map_option mb_size (map_of (allocated_blocks st1) 49152) = None"
    and g: "case allocate st1 h1 300 None 0 of
              Inl e \<Rightarrow> False
            | Inr (np, sta, ha) \<Rightarrow>
                np = 12296
                \<and> (case deallocate sta (memcpy ha np 8200 100) 8200 of
                     Inl e \<Rightarrow> False
                   | Inr r \<Rightarrow> True)"
    by simp_all
  from t obtain blk where tb: "map_of (allocated_blocks st1) 8200 = Some blk" "mb_size blk = 100"
    by auto
  from u have un: "map_of (allocated_blocks st1) 49152 = None" by simp
  have ok1: "heap_ok st1 h1" using allocate_props [OF ok a] by simp
  from g obtain r2 where ar2: "allocate st1 h1 300 None 0 = Inr r2"
    by (cases "allocate st1 h1 300 None 0") auto
  obtain np sta ha where r2: "r2 = (np, sta, ha)" by (cases r2)
  from g ar2 r2 have ga: "allocate st1 h1 300 None 0 = Inr (12296, sta, ha)"
    and gd: "case deallocate sta (memcpy ha 12296 8200 100) 8200 of
               Inl e \<Rightarrow> False | Inr r \<Rightarrow> True"
    by auto
  from gd obtain r3 where ar3: "deallocate sta (memcpy ha 12296 8200 100) 8200 = Inr r3"
    by (cases "deallocate sta (memcpy ha 12296 8200 100) 8200") auto
  obtain st2 h2 where r3: "r3 = (st2, h2)" by (cases r3)
  from ar3 r3 have d: "deallocate sta (memcpy ha 12296 8200 100) 8200 = Inr (st2, h2)"
    by simp
  have 2: "reallocate st1 h1 8200 0 None 0
         = (case deallocate st1 h1 8200 of
              Inl e \<Rightarrow> Inl e
            | Inr (st2, h2) \<Rightarrow> Inr (0, st2, h2))"
    using reallocate_cases [of st1 h1 0 None 0 8200 blk] by simp
  have 3: "reallocate st1 h1 8200 50 None 0 = Inr (8200, st1, h1)"
    using reallocate_cases [of st1 h1 50 None 0 8200 blk] tb by simp
  have 4: "\<exists>st'. reallocate st1 h1 49152 100 None 0
                = Inr (fst (sys_realloc h1 49152 100), st', snd (sys_realloc h1 49152 100))
             \<and> memory_pools st' = memory_pools st1"
    using reallocate_cases [of st1 h1 100 None 0 49152 blk] un by auto
  have 5: "reallocate st1 h1 8200 300 None 0 = Inr (12296, st2, h2)
           \<and> (\<forall>i < 100. bytes h2 (12296 + i) = bytes ha (8200 + i))"
    using reallocate_cases [of st1 h1 300 None 0 8200 blk] tb ok1 ga d by simp
  from b a tb un ok1 2 3 4 5 ga d show ?thesis by blast
qed

text \<open>
  The claim as stated sends every call that is not one of its first three cases through a
  new pool block. With the untracked pointer 49152 (a block of the system allocator that
  the caller owns) and 100 bytes on a freshly constructed manager, the pointer returned is
  the one of the system \<^verbatim>\<open>realloc\<close> (36864), no pool has handed out a block and every
  free list is as it was.
\<close>

theorem reallocate_untracked_takes_no_pool_block:
  "(case boot_and_run MemoryPoolConfig_default [Reallocate 49152 100] of
      Inl e \<Rightarrow> None
    | Inr (ps, st, h) \<Rightarrow>
        Some (ps, map allocated_count (memory_pools st), map free_list (memory_pools st),
              sys_results h))
   = Some ([36864], [0, 0, 0, 0, 0, 0, 0, 0],
           [4096, 8192, 12288, 16384, 20480, 24576, 28672, 32768], [40960])"
  by code_simp

subsection \<open>deallocate, and the heap condition along a client program\<close>

lemma find_pool_loop_Some:
  "find_pool_loop pools st ptr = Some i \<Longrightarrow>
     i < length (memory_pools st) \<and> map_of (allocated_blocks st) ptr \<noteq> None"
  by (induction pools) (auto simp: Let_def split: option.splits if_splits)

lemma MemoryPool_deallocate_Inr:
  assumes "MemoryPool_deallocate p h ptr = Inr (p', h')" and "ptr \<noteq> 0"
  shows "free_list p' = ptr - offsetof_data"
    and "h' = h\<lparr>next_field := (next_field h)(ptr - offsetof_data := free_list p)\<rparr>"
  using assms
  by (auto simp: MemoryPool_deallocate_def lock_guard_def Let_def split: if_splits)

lemma deallocate_Inr:
  assumes "deallocate st h ptr = Inr (st', h')" and "ptr \<noteq> 0"
  shows "\<exists>st1. (case find_pool_loop (memory_pools st) st ptr of
                 None \<Rightarrow> st1 = st \<and> h' = h
               | Some i \<Rightarrow>
                   (\<exists>p. MemoryPool_deallocate (memory_pools st ! i) h ptr = Inr (p, h')
                      \<and> st1 = st\<lparr>memory_pools := (memory_pools st)[i := p]\<rparr>))
           \<and> st' = (let st2 = (if enable_leak_detection (default_config st1)
                                 then track_deallocation st1 ptr else st1)
                    in if enable_performance_monitoring (default_config st2)
                       then (case map_of (allocated_blocks st2) ptr of
                               Some b \<Rightarrow> update_performance_metrics st2 (mb_size b) False
                             | None \<Rightarrow> st2)
                       else st2)"
  using assms
  by (auto simp: deallocate_def Let_def split: option.splits sum.splits)

lemma track_deallocation_fields:
  "memory_pools (track_deallocation st p) = memory_pools st"
  "default_config (track_deallocation st p) = default_config st"
  "metrics (track_deallocation st p) = metrics st"
  by (simp_all add: track_deallocation_def split: option.splits)

lemma update_performance_metrics_fields:
  "memory_pools (update_performance_metrics st n a) = memory_pools st"
  "default_config (update_performance_metrics st n a) = default_config st"
  "allocated_blocks (update_performance_metrics st n a) = allocated_blocks st"
  by (simp_all add: update_performance_metrics_def Let_def)

lemma deallocate_pools:
  assumes "deallocate st h ptr = Inr (st', h')" and "ptr \<noteq> 0"
  shows "case find_pool_loop (memory_pools st) st ptr of
           None \<Rightarrow> memory_pools st' = memory_pools st \<and> h' = h
         | Some i \<Rightarrow>
             (\<exists>p. MemoryPool_deallocate (memory_pools st ! i) h ptr = Inr (p, h')
                \<and> memory_pools st' = (memory_pools st)[i := p])"
proof -
  from deallocate_Inr [OF assms] obtain st1 where
    c: "case find_pool_loop (memory_pools st) st ptr of
                 None \<Rightarrow> st1 = st \<and> h' = h
               | Some i \<Rightarrow>
                   (\<exists>p. MemoryPool_deallocate (memory_pools st ! i) h ptr = Inr (p, h')
                      \<and> st1 = st\<lparr>memory_pools := (memory_pools st)[i := p]\<rparr>)"
    and s: "st' = (let st2 = (if enable_leak_detection (default_config st1)
                                 then track_deallocation st1 ptr else st1)
                    in if enable_performance_monitoring (default_config st2)
                       then (case map_of (allocated_blocks st2) ptr of
                               Some b \<Rightarrow> update_performance_metrics st2 (mb_size b) False
                             | None \<Rightarrow> st2)
                       else st2)"
    by blast
  have "memory_pools st' = memory_pools st1"
    unfolding s
    by (simp add: Let_def track_deallocation_fields update_performance_metrics_fields
        split: option.splits)
  with c show ?thesis by (auto split: option.splits)
qed

lemma deallocate_heap_ok:
  assumes ok: "heap_ok st h" and d: "deallocate st h ptr = Inr (st', h')"
  shows "heap_ok st' h'"
proof (cases "ptr = 0")
  case True
  with d ok show ?thesis by (simp add: deallocate_def)
next
  case False
  note P = deallocate_pools [OF d False]
  show ?thesis
  proof (cases "find_pool_loop (memory_pools st) st ptr")
    case None
    with P ok show ?thesis by (simp add: heap_ok_def)
  next
    case (Some i)
    with P obtain p where m: "MemoryPool_deallocate (memory_pools st ! i) h ptr = Inr (p, h')"
      and s: "memory_pools st' = (memory_pools st)[i := p]"
      by auto
    note M = MemoryPool_deallocate_Inr [OF m False]
    from find_pool_loop_Some [OF Some] have "memory_pools st ! i \<in> set (memory_pools st)"
      by simp
    with ok have f: "payload_nonnull (free_list (memory_pools st ! i))"
      by (simp add: heap_ok_def)
    have n: "payload_nonnull (free_list p)"
      using False by (simp add: M(1) payload_nonnull_def)
    have "set ((memory_pools st)[i := p]) \<subseteq> insert p (set (memory_pools st))"
      by (rule set_update_subset_insert)
    with ok n have 1: "\<forall>q\<in>set (memory_pools st'). payload_nonnull (free_list q)"
      unfolding s heap_ok_def by blast
    from ok f have 2: "\<forall>a. payload_nonnull (next_field h' a)"
      by (simp add: M(2) heap_ok_def)
    from ok have 3: "\<forall>a\<in>set (sys_results h'). payload_nonnull a"
      by (simp add: M(2) heap_ok_def)
    from 1 2 3 show ?thesis by (simp add: heap_ok_def)
  qed
qed

lemma memcpy_heap_ok: "heap_ok st (memcpy h dst src n) = heap_ok st h"
  by (simp add: heap_ok_def memcpy_def)

lemma reallocate_heap_ok:
  assumes ok: "heap_ok st h" and r: "reallocate st h ptr n file line = Inr (q, st', h')"
  shows "heap_ok st' h'"
proof (cases "ptr = 0")
  case True
  with r have "allocate st h n file line = Inr (q, st', h')" by (simp add: reallocate_def)
  from allocate_props [OF ok this] show ?thesis by simp
next
  case nz: False
  show ?thesis
  proof (cases "n = 0")
    case True
    with r nz obtain "deallocate st h ptr = Inr (st', h')"
      by (auto simp: reallocate_def split: sum.splits)
    with ok show ?thesis by (rule deallocate_heap_ok)
  next
    case n0: False
    show ?thesis
    proof (cases "map_of (allocated_blocks st) ptr")
      case None
      with r nz n0 have e: "h' = snd (sys_realloc h ptr n)" "memory_pools st' = memory_pools st"
        by (auto simp: reallocate_def split_beta track_allocation_def split: if_splits)
      have "set (sys_results h') \<subseteq> set (sys_results h)"
        unfolding e by (rule sys_realloc_results_subset)
      with ok show ?thesis
        by (auto simp: heap_ok_def e sys_realloc_next_field)
    next
      case (Some b)
      show ?thesis
      proof (cases "n \<le> mb_size b")
        case True
        with r nz n0 Some ok show ?thesis by (simp add: reallocate_def)
      next
        case False
        with r nz n0 Some obtain np st1 h1 where
          a: "allocate st h n file line = Inr (np, st1, h1)"
          by (auto simp: reallocate_def split: sum.splits)
        from allocate_props [OF ok a] have nn: "np \<noteq> 0" and ok1: "heap_ok st1 h1"
          by simp_all
        from r nz n0 Some False a nn
        have d: "deallocate st1 (memcpy h1 np ptr (mb_size b)) ptr = Inr (st', h')"
          by (auto simp: reallocate_def split: sum.splits)
        from ok1 have "heap_ok st1 (memcpy h1 np ptr (mb_size b))"
          by (simp add: memcpy_heap_ok)
        then show ?thesis using d by (rule deallocate_heap_ok)
      qed
    qed
  qed
qed

lemma run_heap_ok:
  "heap_ok st h \<Longrightarrow> run rs st h = Inr (ps, st', h') \<Longrightarrow> heap_ok st' h'"
proof (induction rs arbitrary: st h ps)
  case Nil
  then show ?case by simp
next
  case (Cons r rs)
  from Cons.prems(2) obtain p st1 h1 ps1 where
    s: "serve r st h = Inr (p, st1, h1)" and t: "run rs st1 h1 = Inr (ps1, st', h')"
    by (auto split: sum.splits)
  have "heap_ok st1 h1"
  proof (cases r)
    case (Allocate n)
    with s have "allocate st h n None 0 = Inr (p, st1, h1)" by simp
    from allocate_props [OF Cons.prems(1) this] show ?thesis by simp
  next
    case (Deallocate q)
    with s have "deallocate st h q = Inr (st1, h1)" by (auto split: sum.splits)
    with Cons.prems(1) show ?thesis by (rule deallocate_heap_ok)
  next
    case (Reallocate q n)
    with s have "reallocate st h q n None 0 = Inr (p, st1, h1)" by simp
    with Cons.prems(1) show ?thesis by (rule reallocate_heap_ok)
  qed
  from Cons.IH [OF this t] show ?case .
qed

subsection \<open>Allocating and deallocating once\<close>

text \<open>
  With leak detection enabled, one \<^verbatim>\<open>deallocate\<close> of a pointer just returned by
  \<^verbatim>\<open>allocate\<close> brings \<^verbatim>\<open>current_usage\<close> back to its value before the allocation.
\<close>

lemma allocate_tracks:
  assumes "allocate st h n file line = Inr (ptr, st', h')"
  shows "default_config st' = default_config st"
    and "enable_leak_detection (default_config st) \<Longrightarrow>
           \<exists>b. map_of (allocated_blocks st') ptr = Some b \<and> mb_size b = n \<and> \<not> is_freed b"
proof -
  from assms obtain i st1 h1 p' where
    g: "get_or_create_pool st h n = Inr (i, st1, h1)"
    and a: "MemoryPool_allocate (memory_pools st1 ! i) h1 = Inr (ptr, p', h')"
    by (auto simp: allocate_def Let_def split: sum.splits)
  note G = get_or_create_pool_Inr [OF g]
  define st2 where "st2 = st1\<lparr>memory_pools := (memory_pools st1)[i := p']\<rparr>"
  define st3 where "st3 = (if enable_leak_detection (default_config st2)
                           then track_allocation st2 ptr n file line else st2)"
  from assms g a have st': "st' = (if enable_performance_monitoring (default_config st3)
                                   then update_performance_metrics st3 n True else st3)"
    by (auto simp: allocate_def Let_def st2_def st3_def)
  have c3: "default_config st3 = default_config st"
    by (simp add: st3_def st2_def track_allocation_def G(2))
  show "default_config st' = default_config st"
    by (simp add: st' c3 update_performance_metrics_fields)
  show "\<exists>b. map_of (allocated_blocks st') ptr = Some b \<and> mb_size b = n \<and> \<not> is_freed b"
    if "enable_leak_detection (default_config st)"
  proof -
    from that have "st3 = track_allocation st2 ptr n file line"
      by (simp add: st3_def st2_def G(2))
    then have "\<exists>b. map_of (allocated_blocks st3) ptr = Some b \<and> mb_size b = n \<and> \<not> is_freed b"
      by (simp add: track_allocation_def map_of_umap_assign)
    then show ?thesis
      by (simp add: st' update_performance_metrics_fields)
  qed
qed

lemma deallocate_usage:
  assumes d: "deallocate st h ptr = Inr (st', h')" and nz: "ptr \<noteq> 0"
    and t: "map_of (allocated_blocks st) ptr = Some b"
  shows "current_memory_usage (metrics st')
           = current_memory_usage (metrics st)
             - (if enable_performance_monitoring (default_config st) then mb_size b else 0)"
proof -
  from deallocate_Inr [OF d nz] obtain st1 where
    c: "case find_pool_loop (memory_pools st) st ptr of
                 None \<Rightarrow> st1 = st \<and> h' = h
               | Some i \<Rightarrow>
                   (\<exists>p. MemoryPool_deallocate (memory_pools st ! i) h ptr = Inr (p, h')
                      \<and> st1 = st\<lparr>memory_pools := (memory_pools st)[i := p]\<rparr>)"
    and s: "st' = (let st2 = (if enable_leak_detection (default_config st1)
                                 then track_deallocation st1 ptr else st1)
                    in if enable_performance_monitoring (default_config st2)
                       then (case map_of (allocated_blocks st2) ptr of
                               Some b \<Rightarrow> update_performance_metrics st2 (mb_size b) False
                             | None \<Rightarrow> st2)
                       else st2)"
    by blast
  from c have f: "allocated_blocks st1 = allocated_blocks st" "metrics st1 = metrics st"
    "default_config st1 = default_config st"
    by (auto split: option.splits)
  define st2 where "st2 = (if enable_leak_detection (default_config st1)
                                 then track_deallocation st1 ptr else st1)"
  have m2: "metrics st2 = metrics st" "default_config st2 = default_config st"
    by (simp_all add: st2_def track_deallocation_fields f)
  have "\<exists>b'. map_of (allocated_blocks st2) ptr = Some b' \<and> mb_size b' = mb_size b"
    using t by (simp add: st2_def track_deallocation_def f update_conv')
  then obtain b' where b': "map_of (allocated_blocks st2) ptr = Some b'" "mb_size b' = mb_size b"
    by blast
  from s have "st' = (if enable_performance_monitoring (default_config st2)
                       then update_performance_metrics st2 (mb_size b) False else st2)"
    by (simp add: st2_def [symmetric] b')
  then show ?thesis
    by (simp add: m2 update_performance_metrics_def Let_def)
qed

lemma deallocate_once_restores_usage:
  assumes ok: "heap_ok st h" and l: "enable_leak_detection (default_config st)"
    and a: "allocate st h n file line = Inr (ptr, st1, h1)"
    and d: "deallocate st1 h1 ptr = Inr (st2, h2)"
  shows "current_usage (get_memory_stats st2) = current_usage (get_memory_stats st)"
proof -
  from allocate_props [OF ok a] have nz: "ptr \<noteq> 0"
    and u: "current_usage (get_memory_stats st1)
             = current_usage (get_memory_stats st)
               + (if enable_performance_monitoring (default_config st) then n else 0)"
    by simp_all
  from allocate_tracks [OF a] l obtain b where
    c: "default_config st1 = default_config st"
    and t: "map_of (allocated_blocks st1) ptr = Some b" "mb_size b = n"
    by blast
  from deallocate_usage [OF d nz t(1)] u show ?thesis
    by (simp add: get_memory_stats_def c t(2))
qed

subsection \<open>Deallocating twice\<close>

text \<open>
  Claim C2 says that \<^verbatim>\<open>current_usage\<close> never underflows and that the bytes recorded as
  deallocated never exceed the bytes recorded as allocated. The code at two failing inputs,
  on a freshly constructed manager with the default configuration. First:
  \<^verbatim>\<open>p = allocate(1024); deallocate(p); deallocate(p)\<close>; the record of \<^verbatim>\<open>p\<close> stays in
  the tracking map with \<^verbatim>\<open>is_freed\<close> set, \<^verbatim>\<open>deallocate\<close> does not read the flag and
  subtracts the size again: 2048 bytes deallocated against 1024 allocated, and
  \<^verbatim>\<open>current_usage\<close> wraps to \<^verbatim>\<open>2^64 - 1024\<close>. Second:
  \<^verbatim>\<open>q = reallocate(49152, 100); deallocate(q)\<close> with an untracked pointer 49152; the
  fallback to \<^verbatim>\<open>realloc\<close> tracks \<^verbatim>\<open>q\<close> without counting it, and \<^verbatim>\<open>deallocate\<close>
  subtracts its 100 bytes from 0.
\<close>

theorem double_free_underflows_current_usage:
  "(case boot_and_run MemoryPoolConfig_default
           [Allocate 1024, Deallocate 20488, Deallocate 20488] of
      Inl e \<Rightarrow> None
    | Inr (ps, st, h) \<Rightarrow>
        Some (ps, total_bytes_allocated (metrics st), total_bytes_deallocated (metrics st),
              current_usage (get_memory_stats st)))
   = Some ([20488, 0, 0], 1024, 2048, 18446744073709550592)
   \<and> (case boot_and_run MemoryPoolConfig_default [Reallocate 49152 100, Deallocate 36864] of
      Inl e \<Rightarrow> None
    | Inr (ps, st, h) \<Rightarrow>
        Some (ps, total_bytes_allocated (metrics st), total_bytes_deallocated (metrics st),
              current_usage (get_memory_stats st)))
   = Some ([36864, 0], 0, 100, 18446744073709551516)"
  by code_simp

text \<open>
  Claim C1 says that a second \<^verbatim>\<open>deallocate(ptr)\<close> changes neither \<^verbatim>\<open>current_usage\<close> nor
  any free list. The code at the failing input \<^verbatim>\<open>p = allocate(1024); deallocate(p)\<close>
  followed by a second \<^verbatim>\<open>deallocate(p)\<close>: before the second call \<^verbatim>\<open>current_usage\<close> is
  0, the \<^verbatim>\<open>next\<close> field of the block (at 20480) is null and no pool counts an allocated
  block; after it \<^verbatim>\<open>current_usage\<close> is \<^verbatim>\<open>2^64 - 1024\<close>, the block's \<^verbatim>\<open>next\<close> field
  points to the block itself (the free list of the 1024-byte pool is a cycle) and the
  pool's \<^verbatim>\<open>allocated_count\<close> has wrapped to \<^verbatim>\<open>2^64 - 1\<close>.
  A second failing input, for the first half of the claim: with \<^verbatim>\<open>enable_leak_detection\<close>
  off nothing is tracked, and the one \<^verbatim>\<open>deallocate(p)\<close> after \<^verbatim>\<open>p = allocate(1024)\<close>
  leaves \<^verbatim>\<open>current_usage\<close> at 1024 and the block off the free list.
\<close>

theorem second_deallocate_is_not_a_noop:
  "(case boot_and_run MemoryPoolConfig_default [Allocate 1024, Deallocate 20488] of
      Inl e \<Rightarrow> None
    | Inr (ps, st, h) \<Rightarrow>
        (case deallocate st h 20488 of
           Inl e \<Rightarrow> None
         | Inr (st', h') \<Rightarrow>
             Some (ps,
                   (current_usage (get_memory_stats st), current_usage (get_memory_stats st')),
                   (next_field h 20480, next_field h' 20480),
                   (map allocated_count (memory_pools st),
                    map allocated_count (memory_pools st')))))
   = Some ([20488, 0], (0, 18446744073709550592), (0, 20480),
           ([0, 0, 0, 0, 0, 0, 0, 0], [0, 0, 0, 0, 18446744073709551615, 0, 0, 0]))
   \<and> (case boot_and_run (MemoryPoolConfig_default\<lparr>enable_leak_detection := False\<rparr>)
             [Allocate 1024, Deallocate 20488] of
        Inl e \<Rightarrow> None
      | Inr (ps, st, h) \<Rightarrow>
          Some (ps, current_usage (get_memory_stats st),
                map allocated_count (memory_pools st), map free_list (memory_pools st)))
     = Some ([20488, 0], 1024, [0, 0, 0, 0, 1, 0, 0, 0],
             [4096, 8192, 12288, 16384, 0, 24576, 28672, 32768])"
  by code_simp

subsection \<open>Size-class resolution\<close>

lemma closest_scan_first_min:
  "(closest_scan sz m best md = best \<and> (\<forall>(k, v)\<in>set m. md \<le> abs_diff sz k))
   \<or> (\<exists>pre k v post. m = pre @ (k, v) # post \<and> closest_scan sz m best md = v
         \<and> abs_diff sz k < md
         \<and> (\<forall>(k', v')\<in>set pre. abs_diff sz k < abs_diff sz k')
         \<and> (\<forall>(k', v')\<in>set post. abs_diff sz k \<le> abs_diff sz k'))"
proof (induction m arbitrary: best md)
  case Nil
  then show ?case by simp
next
  case (Cons x m)
  obtain k0 v0 where x: "x = (k0, v0)" by (cases x)
  let ?d = "abs_diff sz k0"
  show ?case
  proof (cases "?d < md")
    case True
    then have s: "closest_scan sz (x # m) best md = closest_scan sz m v0 ?d"
      by (simp add: x abs_diff_def Let_def)
    from Cons.IH [of v0 ?d] show ?thesis
    proof
      assume a: "closest_scan sz m v0 ?d = v0 \<and> (\<forall>(k, v)\<in>set m. ?d \<le> abs_diff sz k)"
      have "x # m = [] @ (k0, v0) # m" by (simp add: x)
      with a True s show ?thesis by (intro disjI2 exI [of _ "[]"] exI [of _ k0] exI [of _ v0] exI [of _ m]) simp
    next
      assume "\<exists>pre k v post. m = pre @ (k, v) # post \<and> closest_scan sz m v0 ?d = v
         \<and> abs_diff sz k < ?d
         \<and> (\<forall>(k', v')\<in>set pre. abs_diff sz k < abs_diff sz k')
         \<and> (\<forall>(k', v')\<in>set post. abs_diff sz k \<le> abs_diff sz k')"
      then obtain pre k v post where m: "m = pre @ (k, v) # post"
        and r: "closest_scan sz m v0 ?d = v" and l: "abs_diff sz k < ?d"
        and p: "\<forall>(k', v')\<in>set pre. abs_diff sz k < abs_diff sz k'"
        and q: "\<forall>(k', v')\<in>set post. abs_diff sz k \<le> abs_diff sz k'"
        by blast
      have 1: "x # m = (x # pre) @ (k, v) # post" by (simp add: m)
      have 2: "abs_diff sz k < md" using l True by simp
      have 3: "\<forall>(k', v')\<in>set (x # pre). abs_diff sz k < abs_diff sz k'"
        using p l by (simp add: x)
      from 1 2 3 q r s show ?thesis
        by (intro disjI2 exI [of _ "x # pre"] exI [of _ k] exI [of _ v] exI [of _ post]) simp
    qed
  next
    case False
    then have s: "closest_scan sz (x # m) best md = closest_scan sz m best md"
      by (simp add: x abs_diff_def Let_def)
    from Cons.IH [of best md] show ?thesis
    proof
      assume "closest_scan sz m best md = best \<and> (\<forall>(k, v)\<in>set m. md \<le> abs_diff sz k)"
      with False s show ?thesis by (simp add: x not_less)
    next
      assume "\<exists>pre k v post. m = pre @ (k, v) # post \<and> closest_scan sz m best md = v
         \<and> abs_diff sz k < md
         \<and> (\<forall>(k', v')\<in>set pre. abs_diff sz k < abs_diff sz k')
         \<and> (\<forall>(k', v')\<in>set post. abs_diff sz k \<le> abs_diff sz k')"
      then obtain pre k v post where m: "m = pre @ (k, v) # post"
        and r: "closest_scan sz m best md = v" and l: "abs_diff sz k < md"
        and p: "\<forall>(k', v')\<in>set pre. abs_diff sz k < abs_diff sz k'"
        and q: "\<forall>(k', v')\<in>set post. abs_diff sz k \<le> abs_diff sz k'"
        by blast
      have 1: "x # m = (x # pre) @ (k, v) # post" by (simp add: m)
      have "abs_diff sz k < ?d" using l False by simp
      then have 3: "\<forall>(k', v')\<in>set (x # pre). abs_diff sz k < abs_diff sz k'"
        using p by (simp add: x)
      from 1 l 3 q r s show ?thesis
        by (intro disjI2 exI [of _ "x # pre"] exI [of _ k] exI [of _ v] exI [of _ post]) simp
    qed
  qed
qed

lemma closest_scan_range:
  "closest_scan sz m best md = best \<or> closest_scan sz m best md \<in> snd ` set m"
proof -
  from closest_scan_first_min [of sz m best md] show ?thesis
  proof
    assume "closest_scan sz m best md = best \<and> (\<forall>(k, v)\<in>set m. md \<le> abs_diff sz k)"
    then show ?thesis by simp
  next
    assume "\<exists>pre k v post. m = pre @ (k, v) # post \<and> closest_scan sz m best md = v
         \<and> abs_diff sz k < md
         \<and> (\<forall>(k', v')\<in>set pre. abs_diff sz k < abs_diff sz k')
         \<and> (\<forall>(k', v')\<in>set post. abs_diff sz k \<le> abs_diff sz k')"
    then obtain pre k v post where m: "m = pre @ (k, v) # post"
      and r: "closest_scan sz m best md = v"
      by blast
    from m have "(k, v) \<in> set m" by simp
    then have "snd (k, v) \<in> snd ` set m" by (rule imageI)
    with r show ?thesis by simp
  qed
qed

lemma get_pool_index_range:
  "get_pool_index st sz = 0 \<or> get_pool_index st sz \<in> snd ` set (pool_index_map st)"
proof (cases "map_of (pool_index_map st) sz")
  case None
  then show ?thesis using closest_scan_range [of sz "pool_index_map st" 0 SIZE_MAX]
    by (simp add: get_pool_index_def)
next
  case (Some i)
  then have "(sz, i) \<in> set (pool_index_map st)" by (rule map_of_SomeD)
  then have "i \<in> snd ` set (pool_index_map st)" by force
  with Some show ?thesis by (simp add: get_pool_index_def)
qed

lemma get_pool_index_valid:
  assumes "memory_pools st \<noteq> []"
    and "\<forall>(k, v)\<in>set (pool_index_map st). unat v < length (memory_pools st)"
  shows "unat (get_pool_index st sz) < length (memory_pools st)"
  using get_pool_index_range [of st sz] assms by auto

lemma abs_diff_64: "abs_diff sz 64 < SIZE_MAX"
proof -
  have "abs_diff sz 64 \<noteq> - 1"
  proof
    assume e: "abs_diff sz 64 = - 1"
    show False
    proof (cases "sz > 64")
      case True
      with e have "sz - 64 = - 1" by (simp add: abs_diff_def)
      then have "sz = 63" by (simp add: algebra_simps)
      with True show False by simp
    next
      case False
      with e have "64 - sz = - 1" by (simp add: abs_diff_def)
      then have "sz = 65" by (simp add: algebra_simps)
      with False show False by simp
    qed
  qed
  then show ?thesis by (simp add: SIZE_MAX_def word_order.not_eq_extremum)
qed

lemma classes_ok_valid:
  assumes "classes_ok st"
  shows "memory_pools st \<noteq> []"
    and "\<forall>(k, v)\<in>set (pool_index_map st). unat v < length (memory_pools st)"
    and "\<exists>(k, v)\<in>set (pool_index_map st). abs_diff sz k < SIZE_MAX"
proof -
  from assms have t: "pool_index_map st = construction_table"
    and l: "length (memory_pools st) = 8"
    by (simp_all add: classes_ok_def)
  from l show "memory_pools st \<noteq> []" by auto
  show "\<forall>(k, v)\<in>set (pool_index_map st). unat v < length (memory_pools st)"
    by (simp add: t l construction_table_def)
  have "(64, 0) \<in> set (pool_index_map st)" by (simp add: t construction_table_def)
  with abs_diff_64 [of sz] show "\<exists>(k, v)\<in>set (pool_index_map st). abs_diff sz k < SIZE_MAX"
    by blast
qed

lemma get_or_create_pool_classes:
  assumes "classes_ok st"
  shows "get_or_create_pool st h sz = Inr (unat (get_pool_index st sz), st, h)"
proof -
  have "unat (get_pool_index st sz) < length (memory_pools st)"
    using classes_ok_valid(1, 2) [OF assms] by (rule get_pool_index_valid)
  then show ?thesis by (simp add: get_or_create_pool_def)
qed

lemma ctor_classes_ok:
  assumes "NeuralMemoryManager_ctor cfg h = Inr (st, h')"
  shows "classes_ok st"
  using assms
  unfolding NeuralMemoryManager_ctor_def common_sizes_def
  by (auto simp: classes_ok_def construction_table_def umap_assign_def Let_def
      split: sum.splits)

lemma allocate_classes_ok:
  assumes ok: "classes_ok st" and a: "allocate st h n file line = Inr (p, st', h')"
  shows "classes_ok st'"
proof -
  have g: "get_or_create_pool st h n = Inr (unat (get_pool_index st n), st, h)"
    using ok by (rule get_or_create_pool_classes)
  from a obtain q where "MemoryPool_allocate (memory_pools st ! unat (get_pool_index st n)) h
      = Inr (p, q, h')"
    by (auto simp: allocate_def g Let_def split: sum.splits)
  with a have "pool_index_map st' = pool_index_map st
      \<and> length (memory_pools st') = length (memory_pools st)"
    by (auto simp: allocate_def g Let_def track_allocation_def update_performance_metrics_def)
  with ok show ?thesis by (simp add: classes_ok_def)
qed

lemma deallocate_table:
  assumes "deallocate st h ptr = Inr (st', h')"
  shows "pool_index_map st' = pool_index_map st"
    and "length (memory_pools st') = length (memory_pools st)"
proof -
  have "pool_index_map st' = pool_index_map st
      \<and> length (memory_pools st') = length (memory_pools st)"
  proof (cases "ptr = 0")
    case True
    with assms show ?thesis by (simp add: deallocate_def)
  next
    case False
    from deallocate_Inr [OF assms False] obtain st1 where
      c: "case find_pool_loop (memory_pools st) st ptr of
                 None \<Rightarrow> st1 = st \<and> h' = h
               | Some i \<Rightarrow>
                   (\<exists>p. MemoryPool_deallocate (memory_pools st ! i) h ptr = Inr (p, h')
                      \<and> st1 = st\<lparr>memory_pools := (memory_pools st)[i := p]\<rparr>)"
      and s: "st' = (let st2 = (if enable_leak_detection (default_config st1)
                                 then track_deallocation st1 ptr else st1)
                    in if enable_performance_monitoring (default_config st2)
                       then (case map_of (allocated_blocks st2) ptr of
                               Some b \<Rightarrow> update_performance_metrics st2 (mb_size b) False
                             | None \<Rightarrow> st2)
                       else st2)"
      by blast
    from c have 1: "pool_index_map st1 = pool_index_map st
        \<and> length (memory_pools st1) = length (memory_pools st)"
      by (auto split: option.splits)
    have 2: "pool_index_map st' = pool_index_map st1
        \<and> length (memory_pools st') = length (memory_pools st1)"
      unfolding s
      by (simp add: Let_def track_deallocation_def update_performance_metrics_def
          split: option.splits)
    from 1 2 show ?thesis by simp
  qed
  then show "pool_index_map st' = pool_index_map st"
    and "length (memory_pools st') = length (memory_pools st)"
    by simp_all
qed

lemma deallocate_classes_ok:
  "classes_ok st \<Longrightarrow> deallocate st h ptr = Inr (st', h') \<Longrightarrow> classes_ok st'"
  by (simp add: classes_ok_def deallocate_table)

lemma reallocate_classes_ok:
  assumes ok: "classes_ok st" and r: "reallocate st h ptr n file line = Inr (q, st', h')"
  shows "classes_ok st'"
proof (cases "ptr = 0")
  case True
  with r have "allocate st h n file line = Inr (q, st', h')" by (simp add: reallocate_def)
  with ok show ?thesis by (rule allocate_classes_ok)
next
  case nz: False
  show ?thesis
  proof (cases "n = 0")
    case True
    with r nz obtain "deallocate st h ptr = Inr (st', h')"
      by (auto simp: reallocate_def split: sum.splits)
    with ok show ?thesis by (rule deallocate_classes_ok)
  next
    case n0: False
    show ?thesis
    proof (cases "map_of (allocated_blocks st) ptr")
      case None
      with r nz n0 ok show ?thesis
        by (auto simp: reallocate_def split_beta classes_ok_def track_allocation_def
            split: if_splits)
    next
      case (Some b)
      show ?thesis
      proof (cases "n \<le> mb_size b")
        case True
        with r nz n0 Some ok show ?thesis by (simp add: reallocate_def)
      next
        case False
        with r nz n0 Some obtain np st1 h1 where
          a: "allocate st h n file line = Inr (np, st1, h1)"
          by (auto simp: reallocate_def split: sum.splits)
        from ok a have ok1: "classes_ok st1" by (rule allocate_classes_ok)
        from r nz n0 Some False a
        have "st' = st1 \<or> (\<exists>hx. deallocate st1 hx ptr = Inr (st', h'))"
          by (auto simp: reallocate_def split: sum.splits if_splits)
        with ok1 show ?thesis by (auto dest: deallocate_classes_ok)
      qed
    qed
  qed
qed

lemma run_classes_ok:
  "classes_ok st \<Longrightarrow> run rs st h = Inr (ps, st', h') \<Longrightarrow> classes_ok st'"
proof (induction rs arbitrary: st h ps)
  case Nil
  then show ?case by simp
next
  case (Cons r rs)
  from Cons.prems(2) obtain p st1 h1 ps1 where
    s: "serve r st h = Inr (p, st1, h1)" and t: "run rs st1 h1 = Inr (ps1, st', h')"
    by (auto split: sum.splits)
  have "classes_ok st1"
  proof (cases r)
    case (Allocate n)
    with s have "allocate st h n None 0 = Inr (p, st1, h1)" by simp
    with Cons.prems(1) show ?thesis by (rule allocate_classes_ok)
  next
    case (Deallocate q)
    with s have "deallocate st h q = Inr (st1, h1)" by (auto split: sum.splits)
    with Cons.prems(1) show ?thesis by (rule deallocate_classes_ok)
  next
    case (Reallocate q n)
    with s have "reallocate st h q n None 0 = Inr (p, st1, h1)" by simp
    with Cons.prems(1) show ?thesis by (rule reallocate_classes_ok)
  qed
  from Cons.IH [OF this t] show ?case .
qed

text \<open>
  Claim C7, as the code has it. A size with an entry in the table resolves to that entry's
  pool. Otherwise, some entry being closer than \<^verbatim>\<open>SIZE_MAX\<close>, the scan returns the pool
  of the first entry in iteration order among those whose absolute difference from the
  size is minimal: every entry before it is strictly farther, every entry after it at
  least as far. Whenever the index found lies inside the pool list (as it does with at
  least one pool and a table that points into the list) \<^verbatim>\<open>get_or_create_pool\<close> returns
  that pool and creates nothing, however far the size is from every class. A new pool,
  sized exactly to the request and entered in the table, is created when the manager has
  neither pools nor table entries. A manager built by the constructor, with any
  configuration, has the table of the 8 classes and its 8 pools in every state that calls
  of \<^verbatim>\<open>allocate\<close>, \<^verbatim>\<open>deallocate\<close> and \<^verbatim>\<open>reallocate\<close> lead to; there every size has
  an entry closer than \<^verbatim>\<open>SIZE_MAX\<close>, and no size class is ever created.
\<close>

theorem size_class_resolution:
  "(map_of (pool_index_map st) sz = Some i \<longrightarrow> get_pool_index st sz = i)
   \<and> (map_of (pool_index_map st) sz = None
        \<and> (\<exists>(k, v)\<in>set (pool_index_map st). abs_diff sz k < SIZE_MAX)
      \<longrightarrow> (\<exists>pre k v post. pool_index_map st = pre @ (k, v) # post
             \<and> get_pool_index st sz = v
             \<and> (\<forall>(k', v')\<in>set pre. abs_diff sz k < abs_diff sz k')
             \<and> (\<forall>(k', v')\<in>set post. abs_diff sz k \<le> abs_diff sz k')))
   \<and> (unat (get_pool_index st sz) < length (memory_pools st)
      \<longrightarrow> get_or_create_pool st h sz = Inr (unat (get_pool_index st sz), st, h))
   \<and> (memory_pools st \<noteq> []
        \<and> (\<forall>(k, v)\<in>set (pool_index_map st). unat v < length (memory_pools st))
      \<longrightarrow> get_or_create_pool st h sz = Inr (unat (get_pool_index st sz), st, h))
   \<and> (memory_pools st = [] \<and> pool_index_map st = [] \<and> sys_results h = a # rest \<and> a \<noteq> 0
      \<longrightarrow> (\<exists>p h'. get_or_create_pool st h sz
                    = Inr (0, st\<lparr>memory_pools := [p], pool_index_map := [(sz, 0)]\<rparr>, h')
                 \<and> block_size (config p) = sz \<and> free_list p = a))
   \<and> (NeuralMemoryManager_ctor cfg h0 = Inr (st0, h1) \<and> run rs st0 h1 = Inr (ps, st, h)
      \<longrightarrow> pool_index_map st = construction_table \<and> length (memory_pools st) = 8
          \<and> (\<exists>(k, v)\<in>set (pool_index_map st). abs_diff sz k < SIZE_MAX)
          \<and> get_or_create_pool st h sz = Inr (unat (get_pool_index st sz), st, h))"
proof -
  have A: "map_of (pool_index_map st) sz = Some i \<longrightarrow> get_pool_index st sz = i"
    by (simp add: get_pool_index_def)
  have B: "map_of (pool_index_map st) sz = None
        \<and> (\<exists>(k, v)\<in>set (pool_index_map st). abs_diff sz k < SIZE_MAX)
      \<longrightarrow> (\<exists>pre k v post. pool_index_map st = pre @ (k, v) # post
             \<and> get_pool_index st sz = v
             \<and> (\<forall>(k', v')\<in>set pre. abs_diff sz k < abs_diff sz k')
             \<and> (\<forall>(k', v')\<in>set post. abs_diff sz k \<le> abs_diff sz k'))"
  proof
    assume a: "map_of (pool_index_map st) sz = None
        \<and> (\<exists>(k, v)\<in>set (pool_index_map st). abs_diff sz k < SIZE_MAX)"
    then have g: "get_pool_index st sz = closest_scan sz (pool_index_map st) 0 SIZE_MAX"
      by (simp add: get_pool_index_def)
    from a obtain k1 v1 where "(k1, v1) \<in> set (pool_index_map st)" "abs_diff sz k1 < SIZE_MAX"
      by blast
    then have "\<not> (\<forall>(k, v)\<in>set (pool_index_map st). SIZE_MAX \<le> abs_diff sz k)"
      by (force simp: not_le)
    with closest_scan_first_min [of sz "pool_index_map st" 0 SIZE_MAX]
    show "\<exists>pre k v post. pool_index_map st = pre @ (k, v) # post
             \<and> get_pool_index st sz = v
             \<and> (\<forall>(k', v')\<in>set pre. abs_diff sz k < abs_diff sz k')
             \<and> (\<forall>(k', v')\<in>set post. abs_diff sz k \<le> abs_diff sz k')"
      unfolding g by blast
  qed
  have C: "unat (get_pool_index st sz) < length (memory_pools st)
      \<longrightarrow> get_or_create_pool st h sz = Inr (unat (get_pool_index st sz), st, h)"
    by (simp add: get_or_create_pool_def)
  have D: "memory_pools st \<noteq> []
        \<and> (\<forall>(k, v)\<in>set (pool_index_map st). unat v < length (memory_pools st))
      \<longrightarrow> get_or_create_pool st h sz = Inr (unat (get_pool_index st sz), st, h)"
  proof
    assume "memory_pools st \<noteq> []
        \<and> (\<forall>(k, v)\<in>set (pool_index_map st). unat v < length (memory_pools st))"
    then have "unat (get_pool_index st sz) < length (memory_pools st)"
      using get_pool_index_valid by blast
    then show "get_or_create_pool st h sz = Inr (unat (get_pool_index st sz), st, h)"
      by (simp add: get_or_create_pool_def)
  qed
  have E: "memory_pools st = [] \<and> pool_index_map st = [] \<and> sys_results h = a # rest \<and> a \<noteq> 0
      \<longrightarrow> (\<exists>p h'. get_or_create_pool st h sz
                    = Inr (0, st\<lparr>memory_pools := [p], pool_index_map := [(sz, 0)]\<rparr>, h')
                 \<and> block_size (config p) = sz \<and> free_list p = a)"
    by (fastforce simp: get_or_create_pool_def get_pool_index_def MemoryPool_ctor_def
        expand_pool_def lock_guard_def sys_malloc_def umap_assign_def Let_def)
  have F: "NeuralMemoryManager_ctor cfg h0 = Inr (st0, h1) \<and> run rs st0 h1 = Inr (ps, st, h)
      \<longrightarrow> pool_index_map st = construction_table \<and> length (memory_pools st) = 8
          \<and> (\<exists>(k, v)\<in>set (pool_index_map st). abs_diff sz k < SIZE_MAX)
          \<and> get_or_create_pool st h sz = Inr (unat (get_pool_index st sz), st, h)"
  proof
    assume b: "NeuralMemoryManager_ctor cfg h0 = Inr (st0, h1) \<and> run rs st0 h1 = Inr (ps, st, h)"
    then have c: "NeuralMemoryManager_ctor cfg h0 = Inr (st0, h1)"
      and r: "run rs st0 h1 = Inr (ps, st, h)"
      by simp_all
    from c have "classes_ok st0" by (rule ctor_classes_ok)
    then have ok: "classes_ok st" using r by (rule run_classes_ok)
    then show "pool_index_map st = construction_table \<and> length (memory_pools st) = 8
          \<and> (\<exists>(k, v)\<in>set (pool_index_map st). abs_diff sz k < SIZE_MAX)
          \<and> get_or_create_pool st h sz = Inr (unat (get_pool_index st sz), st, h)"
      using classes_ok_valid(3) [OF ok, of sz] get_or_create_pool_classes [OF ok, of h sz]
      by (simp add: classes_ok_def)
  qed
  show ?thesis by (intro conjI) (rule A B C D E F)+
qed

lemma example_boot_table:
  "(case NeuralMemoryManager_ctor MemoryPoolConfig_default example_heap of
      Inl e \<Rightarrow> False
    | Inr (st, h) \<Rightarrow>
        get_pool_index st 96 = 1 \<and> get_pool_index st 1000000 = 7
        \<and> map_of (pool_index_map st) 96 = None
        \<and> (case run [Allocate 100, Deallocate 8200] st h of
             Inl e \<Rightarrow> False
           | Inr r \<Rightarrow> True))"
  by code_simp

theorem size_class_resolution_witness:
  "\<exists>st h. NeuralMemoryManager_ctor MemoryPoolConfig_default example_heap = Inr (st, h)
     \<and> get_pool_index st 1024 = 4
     \<and> (\<exists>pre k v post. pool_index_map st = pre @ (k, v) # post
           \<and> get_pool_index st 96 = v
           \<and> (\<forall>(k', v')\<in>set pre. abs_diff 96 k < abs_diff 96 k')
           \<and> (\<forall>(k', v')\<in>set post. abs_diff 96 k \<le> abs_diff 96 k'))
     \<and> get_pool_index st 96 = 1
     \<and> get_or_create_pool st h 1000000 = Inr (7, st, h)
     \<and> (\<exists>p h'. get_or_create_pool (st\<lparr>memory_pools := [], pool_index_map := []\<rparr>) example_heap 300
                  = Inr (0, st\<lparr>memory_pools := [p], pool_index_map := [(300, 0)]\<rparr>, h')
               \<and> block_size (config p) = 300 \<and> free_list p = 4096)
     \<and> (\<exists>ps st' h'. run [Allocate 100, Deallocate 8200] st h = Inr (ps, st', h')
           \<and> pool_index_map st' = construction_table \<and> length (memory_pools st') = 8
           \<and> get_or_create_pool st' h' 1000000
               = Inr (unat (get_pool_index st' 1000000), st', h'))"
proof -
  obtain st h where b: "NeuralMemoryManager_ctor MemoryPoolConfig_default example_heap = Inr (st, h)"
    using example_boot by blast
  from b have ok: "classes_ok st" by (rule ctor_classes_ok)
  then have t: "pool_index_map st = construction_table" and l: "length (memory_pools st) = 8"
    by (simp_all add: classes_ok_def)
  from example_boot_table have e96: "get_pool_index st 96 = 1"
    and efar: "get_pool_index st 1000000 = 7"
    and n96: "map_of (pool_index_map st) 96 = None"
    and er: "case run [Allocate 100, Deallocate 8200] st h of Inl e \<Rightarrow> False | Inr r \<Rightarrow> True"
    by (simp_all add: b)
  let ?e = "st\<lparr>memory_pools := [], pool_index_map := []\<rparr>"
  have 1: "get_pool_index st 1024 = 4"
    using size_class_resolution [where st = st and sz = 1024 and i = 4]
    by (simp add: t construction_table_def)
  have h2: "map_of (pool_index_map st) 96 = None
        \<and> (\<exists>(k, v)\<in>set (pool_index_map st). abs_diff 96 k < SIZE_MAX)"
    using n96 classes_ok_valid(3) [OF ok, of 96] by simp
  have 2: "\<exists>pre k v post. pool_index_map st = pre @ (k, v) # post
           \<and> get_pool_index st 96 = v
           \<and> (\<forall>(k', v')\<in>set pre. abs_diff 96 k < abs_diff 96 k')
           \<and> (\<forall>(k', v')\<in>set post. abs_diff 96 k \<le> abs_diff 96 k')"
    using size_class_resolution [where st = st and sz = 96] h2 by blast
  have h3: "unat (get_pool_index st 1000000) < length (memory_pools st)"
    by (simp add: efar l)
  have 3: "get_or_create_pool st h 1000000 = Inr (7, st, h)"
    using size_class_resolution [where st = st and sz = 1000000 and h = h] h3
    by (simp add: efar)
  have h3b: "memory_pools st \<noteq> []
        \<and> (\<forall>(k, v)\<in>set (pool_index_map st). unat v < length (memory_pools st))"
    using classes_ok_valid(1, 2) [OF ok] by simp
  have g3: "get_or_create_pool st h 1000000 = Inr (unat (get_pool_index st 1000000), st, h)"
    using size_class_resolution [where st = st and sz = 1000000 and h = h] h3b by blast
  have h4: "memory_pools ?e = [] \<and> pool_index_map ?e = []
      \<and> sys_results example_heap
          = 4096 # [8192, 12288, 16384, 20480, 24576, 28672, 32768, 36864, 40960]
      \<and> (4096 :: addr) \<noteq> 0"
    by (simp add: example_heap_def)
  have 4: "\<exists>p h'. get_or_create_pool ?e example_heap 300
                  = Inr (0, st\<lparr>memory_pools := [p], pool_index_map := [(300, 0)]\<rparr>, h')
               \<and> block_size (config p) = 300 \<and> free_list p = 4096"
    using size_class_resolution [where st = ?e and sz = 300 and h = example_heap and a = 4096
        and rest = "[8192, 12288, 16384, 20480, 24576, 28672, 32768, 36864, 40960]"] h4
    by simp
  from er obtain r where rr: "run [Allocate 100, Deallocate 8200] st h = Inr r"
    by (cases "run [Allocate 100, Deallocate 8200] st h") auto
  obtain ps st' h' where r: "r = (ps, st', h')" by (cases r)
  have 5: "pool_index_map st' = construction_table \<and> length (memory_pools st') = 8
           \<and> get_or_create_pool st' h' 1000000
               = Inr (unat (get_pool_index st' 1000000), st', h')"
    using size_class_resolution [where st = st' and h = h' and sz = 1000000
        and cfg = MemoryPoolConfig_default and ?h0.0 = example_heap and ?st0.0 = st and ?h1.0 = h
        and rs = "[Allocate 100, Deallocate 8200]" and ps = ps] b rr r
    by simp
  from 5 rr r have 6: "\<exists>ps st' h'. run [Allocate 100, Deallocate 8200] st h = Inr (ps, st', h')
           \<and> pool_index_map st' = construction_table \<and> length (memory_pools st') = 8
           \<and> get_or_create_pool st' h' 1000000
               = Inr (unat (get_pool_index st' 1000000), st', h')"
    by blast
  from b 1 2 e96 3 4 6 show ?thesis by blast
qed

text \<open>
  The claim as stated says that a new size class is created when no close match exists.
  On a freshly constructed manager a request of 1000000 bytes, 991808 bytes away from the
  nearest class, is served by the pool of 8192-byte blocks; the manager still has its 8
  pools and the table its 8 sizes.
\<close>

theorem far_request_creates_no_size_class:
  "(case NeuralMemoryManager_ctor MemoryPoolConfig_default example_heap of
      Inl e \<Rightarrow> None
    | Inr (st, h) \<Rightarrow>
        (case get_or_create_pool st h 1000000 of
           Inl e \<Rightarrow> None
         | Inr (i, st', h') \<Rightarrow>
             Some (i, block_size (config (memory_pools st' ! i)), length (memory_pools st'),
                   map fst (pool_index_map st'))))
   = Some (7, 8192, 8, [8192, 4096, 2048, 1024, 512, 256, 128, 64])"
  by code_simp

end
